theory Spec2Isabelle
  imports Main
begin

section \<open>Common types\<close>

text \<open>
  Go errors are values carrying a message. A runtime panic (closing a closed channel,
  a nil dereference, an index out of range), a goroutine blocked for ever on a channel
  and the sentinel error \<open>idmap.ErrHostIdIsSubId\<close> are kept apart from ordinary errors.
\<close>

datatype error = Err string | ErrHostIdIsSubId | Panic string | Deadlock

text \<open>
  A Go \<open>map[string]string\<close> is an association list: the list order stands for one of the
  iteration orders \<open>range\<close> may choose, and a well-formed map has distinct keys. Reading
  a missing key gives the empty string, as indexing a Go map does.
\<close>

type_synonym config = "(string \<times> string) list"
type_synonym Device = "(string \<times> string) list"
type_synonym Devices = "(string \<times> Device) list"

definition get :: "(string \<times> string) list \<Rightarrow> string \<Rightarrow> string" where
  "get m k = (case map_of m k of None \<Rightarrow> [] | Some v \<Rightarrow> v)"

definition getDevice :: "Devices \<Rightarrow> string \<Rightarrow> Device" where
  "getDevice ds k = (case map_of ds k of None \<Rightarrow> [] | Some d \<Rightarrow> d)"

definition setKey :: "string \<Rightarrow> string \<Rightarrow> config \<Rightarrow> config" where
  "setKey k v m = (if k \<in> fst ` set m then map (\<lambda>(k', v'). if k' = k then (k', v) else (k', v')) m
                   else m @ [(k, v)])"

section \<open>The container\<close>

text \<open>
  \<open>containerLXC\<close>: the fields of the struct that the operations below read or write.
  \<open>cid\<close> is the field \<open>id\<close>. Times are seconds since the epoch. The cached go-lxc handle
  (\<open>c.c\<close>, \<open>c.cConfig\<close>) is not part of the model.
\<close>

record containerLXC =
  architecture :: int
  ephemeral :: bool
  cid :: int
  project :: string
  name :: string
  description :: string
  expandedConfig :: config
  expandedDevices :: Devices
  localConfig :: config
  localDevices :: Devices
  profiles :: "string list"
  expiryDate :: int

section \<open>Operation locking\<close>

text \<open>
  \<open>lxcContainerOperation\<close>: the struct of the source. The channel \<open>chanDone\<close> is only ever
  closed, so it is the flag \<open>chanDone_closed\<close>. The watchdog goroutine started by
  \<open>Create\<close> is the pair \<open>watchdog\<close> (the goroutine is still running) and \<open>elapsed\<close> (whole
  seconds since \<open>time.After\<close> was last armed); a receive on \<open>chanReset\<close> re-arms it.
\<close>

record lxcContainerOperation =
  action :: string
  chanDone_closed :: bool
  err :: "string option"
  op_id :: int
  reusable :: bool
  watchdog :: bool
  elapsed :: nat

text \<open>
  The package-level registry \<open>lxcContainerOperations\<close> maps a container id to a pointer.
  Pointers are indices into \<open>heap\<close>, the operations allocated so far.
\<close>

record oplock =
  heap :: "lxcContainerOperation list"
  lxcContainerOperations :: "int \<rightharpoonup> nat"

definition oplock_init :: oplock where
  "oplock_init = \<lparr>heap = [], lxcContainerOperations = Map.empty\<rparr>"

definition Create :: "int \<Rightarrow> string \<Rightarrow> bool \<Rightarrow> lxcContainerOperation" where
  "Create i act r =
     \<lparr>action = act, chanDone_closed = False, err = None, op_id = i, reusable = r,
      watchdog = True, elapsed = 0\<rparr>"

definition Reset :: "nat \<Rightarrow> oplock \<Rightarrow> error + oplock" where
  "Reset a s =
     (if \<not> a < length (heap s) then Inl (Panic ''nil pointer dereference'')
      else let op = heap s ! a in
        if \<not> reusable op then Inl (Err ''Can't reset a non-reusable operation'')
        else if \<not> watchdog op then Inl Deadlock
        else Inr (s\<lparr>heap := (heap s)[a := op\<lparr>elapsed := 0\<rparr>]\<rparr>))"

definition Done :: "nat \<Rightarrow> string option \<Rightarrow> oplock \<Rightarrow> error + oplock" where
  "Done a e s =
     (if \<not> a < length (heap s) then Inl (Panic ''nil pointer dereference'')
      else let op = heap s ! a in
        case lxcContainerOperations s (op_id op) of
          None \<Rightarrow> Inr s
        | Some runningOp \<Rightarrow>
            if runningOp \<noteq> a then Inr s
            else if chanDone_closed op then Inl (Panic ''close of closed channel'')
            else Inr (s\<lparr>heap := (heap s)[a := op\<lparr>err := e, chanDone_closed := True\<rparr>],
                       lxcContainerOperations := (lxcContainerOperations s)(op_id op := None)\<rparr>))"

text \<open>
  \<open>getOperation\<close> and \<open>createOperation\<close>. The registry mutex is held in two separate
  critical sections of \<open>createOperation\<close>: the lookup inside \<open>getOperation\<close> (line 627), and
  the insertion (lines 637 to 644), which does not look again; \<open>op.Reset()\<close> runs under
  no lock. \<open>createOperation_lookup\<close> is the call up to the insertion: \<open>Some\<close> of what the
  call returns when it finds an operation in flight (the reused operation, or the busy
  error), \<open>None\<close> when it goes on to insert. \<open>createOperation_insert\<close> is the second
  critical section. \<open>createOperation\<close> is one whole call, no other call running between
  its steps.
\<close>

definition getOperation :: "containerLXC \<Rightarrow> string \<Rightarrow> oplock \<Rightarrow> error + nat" where
  "getOperation c act s =
     (case lxcContainerOperations s (cid c) of
        None \<Rightarrow> Inl (Err (''No running '' @ act @ '' container operation''))
      | Some a \<Rightarrow>
          if act \<noteq> [] \<and> action (heap s ! a) \<noteq> act
          then Inl (Err (''Container is running a '' @ action (heap s ! a) @ '' operation, not a ''
                          @ act @ '' operation''))
          else Inr a)"

definition createOperation_lookup ::
    "containerLXC \<Rightarrow> bool \<Rightarrow> oplock \<Rightarrow> ((error + nat) \<times> oplock) option" where
  "createOperation_lookup c reuse s =
     (case getOperation c [] s of
        Inr a \<Rightarrow>
          Some (if reuse \<and> reusable (heap s ! a)
                then (case Reset a s of
                        Inl Deadlock \<Rightarrow> (Inl Deadlock, s)
                      | Inl (Panic m) \<Rightarrow> (Inl (Panic m), s)
                      | Inl _ \<Rightarrow> (Inr a, s)
                      | Inr s' \<Rightarrow> (Inr a, s'))
                else (Inl (Err (''Container is busy running a '' @ action (heap s ! a) @
                                 '' operation'')), s))
      | Inl _ \<Rightarrow> None)"

definition createOperation_insert ::
    "containerLXC \<Rightarrow> string \<Rightarrow> bool \<Rightarrow> oplock \<Rightarrow> (error + nat) \<times> oplock" where
  "createOperation_insert c act r s =
     (Inr (length (heap s)),
      s\<lparr>heap := heap s @ [Create (cid c) act r],
        lxcContainerOperations := (lxcContainerOperations s)(cid c \<mapsto> length (heap s))\<rparr>)"

definition createOperation ::
    "containerLXC \<Rightarrow> string \<Rightarrow> bool \<Rightarrow> bool \<Rightarrow> oplock \<Rightarrow> (error + nat) \<times> oplock" where
  "createOperation c act r reuse s =
     (case createOperation_lookup c reuse s of
        Some res \<Rightarrow> res
      | None \<Rightarrow> createOperation_insert c act r s)"

text \<open>
  The first steps of \<open>Start\<close>, \<open>Stop\<close> and \<open>Shutdown\<close>, up to the point where the
  operation is held. \<open>running\<close> is what \<open>c.IsRunning()\<close> answers, a probe of the runtime
  library.
\<close>

definition Start_createOperation :: "containerLXC \<Rightarrow> oplock \<Rightarrow> (error + nat) \<times> oplock" where
  "Start_createOperation c s =
     (case createOperation c ''start'' False False s of
        (Inl (Err m), s') \<Rightarrow> (Inl (Err (''Create container start operation: '' @ m)), s')
      | r \<Rightarrow> r)"



text \<open>
  The watchdog goroutine of \<open>Create\<close>, on a clock of whole seconds. \<open>watchdog_tick a\<close> is
  one second passing for the goroutine of operation \<open>a\<close>: the timer armed by
  \<open>time.After(time.Second * 30)\<close> either keeps running or, at the thirtieth second, fires
  \<open>op.Done\<close> with the timeout error, after which the goroutine returns. \<open>tick\<close> is one
  second passing for every goroutine, \<open>ticks n\<close> is \<open>n\<close> seconds with no other call in
  between.
\<close>

definition timeout_error :: "lxcContainerOperation \<Rightarrow> string" where
  "timeout_error op = ''Container '' @ action op @ '' operation timed out after 30 seconds''"

definition watchdog_tick :: "nat \<Rightarrow> oplock \<Rightarrow> error + oplock" where
  "watchdog_tick a s =
     (let op = heap s ! a in
        if \<not> watchdog op then Inr s
        else if Suc (elapsed op) < 30
        then Inr (s\<lparr>heap := (heap s)[a := op\<lparr>elapsed := Suc (elapsed op)\<rparr>]\<rparr>)
        else (case Done a (Some (timeout_error op)) s of
                Inl e \<Rightarrow> Inl e
              | Inr s' \<Rightarrow> Inr (s'\<lparr>heap := (heap s')[a := (heap s' ! a)\<lparr>watchdog := False\<rparr>]\<rparr>)))"

fun tick_ops :: "nat list \<Rightarrow> oplock \<Rightarrow> error + oplock" where
  "tick_ops [] s = Inr s"
| "tick_ops (a # as) s =
     (case watchdog_tick a s of Inl e \<Rightarrow> Inl e | Inr s' \<Rightarrow> tick_ops as s')"

definition tick :: "oplock \<Rightarrow> error + oplock" where
  "tick s = tick_ops [0..<length (heap s)] s"


text \<open>
  The states the registry can be in when calls interleave at their critical sections.
  A lookup changes nothing, so the insertion of a call whose lookup found no operation
  may come in any later state: the lookup may date from the empty registry, where
  every container id is free. The other steps are \<open>Done\<close> and \<open>Reset\<close> on an operation
  that was handed out, and a second of time.
\<close>

inductive reachable :: "oplock \<Rightarrow> bool" where
  r_init: "reachable oplock_init"
| r_insert: "reachable s \<Longrightarrow> createOperation_insert c act r s = (res, s') \<Longrightarrow> reachable s'"
| r_done: "reachable s \<Longrightarrow> a < length (heap s) \<Longrightarrow> Done a e s = Inr s' \<Longrightarrow> reachable s'"
| r_reset: "reachable s \<Longrightarrow> a < length (heap s) \<Longrightarrow> Reset a s = Inr s' \<Longrightarrow> reachable s'"
| r_tick: "reachable s \<Longrightarrow> tick s = Inr s' \<Longrightarrow> reachable s'"

text \<open>An operation is live from \<open>Create\<close> until its done-signal fires.\<close>

definition live :: "oplock \<Rightarrow> nat \<Rightarrow> bool" where
  "live s a = (a < length (heap s) \<and> \<not> chanDone_closed (heap s ! a))"

text \<open>
  The invariant of the registry: a registered pointer is an operation of that container
  id that is not done and whose watchdog still runs. (That a live operation is the
  registered one does not hold when two insertions follow one another.)
\<close>

definition registry_inv :: "oplock \<Rightarrow> bool" where
  "registry_inv s =
     (\<forall>i a. lxcContainerOperations s i = Some a \<longrightarrow>
          a < length (heap s) \<and> op_id (heap s ! a) = i \<and>
          \<not> chanDone_closed (heap s ! a) \<and> watchdog (heap s ! a))"

text \<open>A container to run the operations on: an unprivileged container with one root disk.\<close>

definition example_container :: containerLXC where
  "example_container =
     \<lparr>architecture = 2, ephemeral = False, cid = 1, project = ''default'', name = ''c1'',
      description = [], expandedConfig = [(''volatile.base_image'', ''abc'')],
      expandedDevices = [(''root'', [(''type'', ''disk''), (''path'', ''/''), (''pool'', ''default'')])],
      localConfig = [(''volatile.base_image'', ''abc'')],
      localDevices = [(''root'', [(''type'', ''disk''), (''path'', ''/''), (''pool'', ''default'')])],
      profiles = [], expiryDate = 0\<rparr>"

section \<open>The device diff\<close>

text \<open>
  Modelled from the spec: \<open>Devices.Update\<close> of package \<open>lxd/types\<close>, which \<open>Update\<close> calls
  as \<open>oldExpandedDevices.Update(c.expandedDevices)\<close> and whose source is not among the
  files. The spec's contract: \<open>Reconcile(old, new) -> (removed, added, updated)\<close>, set
  difference plus per-key value comparison; a device present in both with identical
  key/value pairs is untouched, any difference classifies it as updated; devices are
  compared by full key/value equality. The fourth result is the spec's \<open>changedKeys\<close>.
\<close>

definition deviceEquals :: "Device \<Rightarrow> Device \<Rightarrow> bool" where
  "deviceEquals old new = (\<forall>k \<in> fst ` set old \<union> fst ` set new. map_of old k = map_of new k)"

definition deviceEqualsDiffKeys :: "Device \<Rightarrow> Device \<Rightarrow> string list" where
  "deviceEqualsDiffKeys old new =
     remdups (filter (\<lambda>k. map_of old k \<noteq> map_of new k) (map fst old @ map fst new))"

definition Devices_Update :: "Devices \<Rightarrow> Devices \<Rightarrow> Devices \<times> Devices \<times> Devices \<times> string list" where
  "Devices_Update old new =
     (filter (\<lambda>(k, d). map_of new k = None) old,
      filter (\<lambda>(k, d). map_of old k = None) new,
      filter (\<lambda>(k, d). map_of old k \<noteq> None \<and> \<not> deviceEquals (getDevice old k) (getDevice new k)) new,
      remdups (concat (map (\<lambda>(k, d). if map_of old k = None then []
                                       else deviceEqualsDiffKeys (getDevice old k) (getDevice new k)) new)))"

section \<open>The id-map allocator\<close>

text \<open>
  \<open>int64\<close> arithmetic: the mathematical result, wrapped into the range of a signed
  64-bit integer.
\<close>

definition int64 :: "int \<Rightarrow> int" where
  "int64 x = (x + 2 ^ 63) mod 2 ^ 64 - 2 ^ 63"

text \<open>
  \<open>strconv.ParseInt(s, 10, 64)\<close>: an optional sign, then decimal digits only, and a value
  that fits 64 bits. The error names the input between double quotes (what
  \<open>strconv.Quote\<close> gives for plain text). \<open>fmt.Sprintf("%v", n)\<close> is \<open>show_int\<close>.
\<close>

definition NumError :: "string \<Rightarrow> string \<Rightarrow> error" where
  "NumError s reason =
     Err (''strconv.ParseInt: parsing '' @ [char_of (34::nat)] @ s @ [char_of (34::nat)] @ '': '' @ reason)"

definition is_digit :: "char \<Rightarrow> bool" where
  "is_digit c = (48 \<le> (of_char c :: nat) \<and> (of_char c :: nat) \<le> 57)"

fun digits_val :: "string \<Rightarrow> nat \<Rightarrow> nat option" where
  "digits_val [] acc = Some acc"
| "digits_val (c # cs) acc =
     (if is_digit c then digits_val cs (acc * 10 + (of_char c - 48)) else None)"

definition ParseInt :: "string \<Rightarrow> error + int" where
  "ParseInt s =
     (let (neg, ds) = (case s of
                         c # r \<Rightarrow> if c = CHR ''-'' then (True, r)
                                  else if c = CHR ''+'' then (False, r) else (False, s)
                       | [] \<Rightarrow> (False, s))
      in if ds = [] then Inl (NumError s ''invalid syntax'')
         else case digits_val ds 0 of
                None \<Rightarrow> Inl (NumError s ''invalid syntax'')
              | Some n \<Rightarrow>
                  let v = (if neg then - int n else int n)
                  in if v < - (2 ^ 63) \<or> 2 ^ 63 \<le> v
                     then Inl (NumError s ''value out of range'')
                     else Inr v)"

function show_nat :: "nat \<Rightarrow> string" where
  "show_nat n = (if n < 10 then [char_of (48 + n)] else show_nat (n div 10) @ [char_of (48 + n mod 10)])"
  by pat_completeness auto
termination
  by (relation "measure (\<lambda>n. n)") auto

declare show_nat.simps [simp del]

definition show_int :: "int \<Rightarrow> string" where
  "show_int i = (if i < 0 then CHR ''-'' # show_nat (nat (- i)) else show_nat (nat i))"

text \<open>\<open>strings.Split(s, sep)\<close> for a separator of one character.\<close>

fun Split :: "string \<Rightarrow> char \<Rightarrow> string list" where
  "Split [] sep = [[]]"
| "Split (x # xs) sep =
     (if x = sep then [] # Split xs sep
      else (case Split xs sep of w # ws \<Rightarrow> (x # w) # ws | [] \<Rightarrow> [[x]]))"

record IdmapEntry =
  Isuid :: bool
  Isgid :: bool
  Hostid :: int
  Nsid :: int
  Maprange :: int

text \<open>
  What \<open>findIdmap\<close> reads from outside this file. \<open>OS_IdmapSet\<close> is
  \<open>state.OS.IdmapSet\<close>, nil on a host with no sub-id ranges. \<open>containerLoadAll\<close> is the
  answer of the function of that name. \<open>IsTrue\<close> is \<open>shared.IsTrue\<close>. \<open>AddSafe\<close> is the
  method of \<open>idmap.IdmapSet\<close>: it gives the set it leaves and the error it returns.
\<close>

record State =
  OS_IdmapSet :: "IdmapEntry list option"
  containerLoadAll :: "error + containerLXC list"
  IsTrue :: "string \<Rightarrow> bool"
  AddSafe :: "IdmapEntry list \<Rightarrow> IdmapEntry \<Rightarrow> IdmapEntry list \<times> error option"

definition IsPrivileged :: "State \<Rightarrow> containerLXC \<Rightarrow> bool" where
  "IsPrivileged st c = IsTrue st (get (expandedConfig c) ''security.privileged'')"

text \<open>\<open>idmapSize\<close>. The error for a bad host map also prints the map, which is left out.\<close>

definition idmapSize :: "State \<Rightarrow> string \<Rightarrow> string \<Rightarrow> error + int" where
  "idmapSize st isolatedStr sz =
     (let isolated = IsTrue st isolatedStr in
      if sz = [] \<or> sz = ''auto'' then
        (if isolated then Inr 65536
         else case OS_IdmapSet st of
                None \<Rightarrow> Inl (Panic ''nil pointer dereference'')
              | Some m \<Rightarrow> if length m \<noteq> 2 then Inl (Err ''bad initial idmap'')
                          else Inr (Maprange (m ! 0)))
      else ParseInt sz)"

text \<open>\<open>getRange\<close>, the closure of \<open>parseRawIdmap\<close>.\<close>

definition getRange :: "string \<Rightarrow> error + int \<times> int" where
  "getRange r =
     (let entries = Split r CHR ''-'' in
      if length entries > 2 then Inl (Err (''invalid raw.idmap range '' @ r))
      else case ParseInt (entries ! 0) of
             Inl e \<Rightarrow> Inl e
           | Inr base \<Rightarrow>
               if length entries > 1 then
                 (case ParseInt (entries ! 1) of
                    Inl e \<Rightarrow> Inl e
                  | Inr sz \<Rightarrow> Inr (base, int64 (int64 (sz - base) + 1)))
               else Inr (base, 1))"

fun parseRawIdmap_lines :: "State \<Rightarrow> string list \<Rightarrow> IdmapEntry list \<Rightarrow> error + IdmapEntry list" where
  "parseRawIdmap_lines st [] ret = Inr ret"
| "parseRawIdmap_lines st (line # lines) ret =
     (if line = [] then parseRawIdmap_lines st lines ret
      else let entries = Split line CHR '' '' in
        if length entries \<noteq> 3 then Inl (Err (''invalid raw.idmap line '' @ line))
        else case getRange (entries ! 1) of
               Inl e \<Rightarrow> Inl e
             | Inr (outsideBase, outsideSize) \<Rightarrow>
                 (case getRange (entries ! 2) of
                    Inl e \<Rightarrow> Inl e
                  | Inr (insideBase, insideSize) \<Rightarrow>
                      if insideSize \<noteq> outsideSize
                      then Inl (Err (''idmap ranges of different sizes '' @ line))
                      else let entry = \<lparr>Isuid = False, Isgid = False, Hostid = outsideBase,
                                          Nsid = insideBase, Maprange = insideSize\<rparr>;
                               entry' = (if entries ! 0 = ''both'' then Some (entry\<lparr>Isuid := True, Isgid := True\<rparr>)
                                         else if entries ! 0 = ''uid'' then Some (entry\<lparr>Isuid := True\<rparr>)
                                         else if entries ! 0 = ''gid'' then Some (entry\<lparr>Isgid := True\<rparr>)
                                         else None)
                           in case entry' of
                                None \<Rightarrow> Inl (Err (''invalid raw.idmap type '' @ line))
                              | Some ent \<Rightarrow>
                                  (case AddSafe st ret ent of
                                     (ret', Some e) \<Rightarrow> Inl e
                                   | (ret', None) \<Rightarrow> parseRawIdmap_lines st lines ret')))"

definition parseRawIdmap :: "State \<Rightarrow> string \<Rightarrow> error + IdmapEntry list" where
  "parseRawIdmap st v = parseRawIdmap_lines st (Split v (char_of (10::nat))) []"

text \<open>
  \<open>mkIdmap\<close>, the closure of \<open>findIdmap\<close>: the two blocks of \<open>sz\<close> ids at \<open>offset\<close>, then
  every raw entry added with \<open>AddSafe\<close>, of whose errors only \<open>ErrHostIdIsSubId\<close> is
  returned.
\<close>

fun addRawMaps :: "State \<Rightarrow> IdmapEntry list \<Rightarrow> IdmapEntry list \<Rightarrow> error + IdmapEntry list" where
  "addRawMaps st idset [] = Inr idset"
| "addRawMaps st idset (ent # ents) =
     (case AddSafe st idset ent of
        (idset', Some e) \<Rightarrow> if e = ErrHostIdIsSubId then Inl e else addRawMaps st idset' ents
      | (idset', None) \<Rightarrow> addRawMaps st idset' ents)"

definition mkIdmap :: "State \<Rightarrow> IdmapEntry list \<Rightarrow> int \<Rightarrow> int \<Rightarrow> error + IdmapEntry list" where
  "mkIdmap st rawMaps offset sz =
     addRawMaps st
       [\<lparr>Isuid = True, Isgid = False, Hostid = offset, Nsid = 0, Maprange = sz\<rparr>,
        \<lparr>Isuid = False, Isgid = True, Hostid = offset, Nsid = 0, Maprange = sz\<rparr>] rawMaps"

text \<open>
  The loop of \<open>findIdmap\<close> over the containers: the entry (base, size) of every other
  unprivileged isolated container, read from its expanded config. \<open>counted\<close> is the
  three tests that skip a container, \<open>container_range\<close> the rest of the loop body.
\<close>

definition counted :: "State \<Rightarrow> string \<Rightarrow> containerLXC \<Rightarrow> bool" where
  "counted st cName container =
     (\<not> name container = cName \<and> \<not> IsPrivileged st container \<and>
      IsTrue st (get (expandedConfig container) ''security.idmap.isolated''))"

definition container_range :: "State \<Rightarrow> containerLXC \<Rightarrow> error + int \<times> int" where
  "container_range st container =
     (case (if get (expandedConfig container) ''volatile.idmap.base'' \<noteq> []
            then ParseInt (get (expandedConfig container) ''volatile.idmap.base'')
            else Inr 0) of
        Inl e \<Rightarrow> Inl e
      | Inr cBase \<Rightarrow>
          (case idmapSize st (get (expandedConfig container) ''security.idmap.isolated'')
                             (get (expandedConfig container) ''security.idmap.size'') of
             Inl e \<Rightarrow> Inl e
           | Inr cSize \<Rightarrow> Inr (cBase, cSize)))"

fun mapentries_of :: "State \<Rightarrow> string \<Rightarrow> containerLXC list \<Rightarrow> IdmapEntry list \<Rightarrow> error + IdmapEntry list" where
  "mapentries_of st cName [] mapentries = Inr mapentries"
| "mapentries_of st cName (container # cts) mapentries =
     (if \<not> counted st cName container then mapentries_of st cName cts mapentries
      else case container_range st container of
             Inl e \<Rightarrow> Inl e
           | Inr (cBase, cSize) \<Rightarrow>
               mapentries_of st cName cts
                 (mapentries @ [\<lparr>Isuid = False, Isgid = False, Hostid = cBase, Nsid = 0,
                                 Maprange = cSize\<rparr>]))"

text \<open>
  The scan \<open>for i := range mapentries\<close>, by index as in the source. \<open>Inl offset\<close>: the
  loop returns with the block at \<open>offset\<close>; \<open>Inr offset\<close>: the loop ends and \<open>offset\<close>
  goes to the last test.
\<close>

function scan :: "IdmapEntry list \<Rightarrow> int \<Rightarrow> nat \<Rightarrow> int \<Rightarrow> int + int" where
  "scan mapentries sz i offset =
     (if \<not> i < length mapentries then Inr offset
      else if i = 0 then
        (if Hostid (mapentries ! 0) < int64 (offset + sz)
         then scan mapentries sz (Suc i)
                (int64 (Hostid (mapentries ! 0) + Maprange (mapentries ! 0)))
         else Inl offset)
      else if int64 (Hostid (mapentries ! (i - 1)) + Maprange (mapentries ! (i - 1))) > offset
      then scan mapentries sz (Suc i)
             (int64 (Hostid (mapentries ! (i - 1)) + Maprange (mapentries ! (i - 1))))
      else let offset' = int64 (Hostid (mapentries ! (i - 1)) + Maprange (mapentries ! (i - 1)))
           in if int64 (offset' + sz) < Hostid (mapentries ! i) then Inl offset'
              else scan mapentries sz (Suc i)
                     (int64 (Hostid (mapentries ! i) + Maprange (mapentries ! i))))"
  by pat_completeness auto
termination
  by (relation "measure (\<lambda>(mapentries, sz, i, offset). length mapentries - i)") auto

declare scan.simps [simp del]

definition withOffset :: "error + IdmapEntry list \<Rightarrow> int \<Rightarrow> error + IdmapEntry list \<times> int" where
  "withOffset r offset = (case r of Inl e \<Rightarrow> Inl e | Inr idset \<Rightarrow> Inr (idset, offset))"

definition findIdmap ::
    "State \<Rightarrow> string \<Rightarrow> string \<Rightarrow> string \<Rightarrow> string \<Rightarrow> string \<Rightarrow> error + IdmapEntry list \<times> int" where
  "findIdmap st cName isolatedStr configBase configSize rawIdmap =
     (let isolated = IsTrue st isolatedStr in
      case parseRawIdmap st rawIdmap of
        Inl e \<Rightarrow> Inl e
      | Inr rawMaps \<Rightarrow>
          if \<not> isolated then
            (case OS_IdmapSet st of
               None \<Rightarrow> Inl (Panic ''nil pointer dereference'')
             | Some hostmap \<Rightarrow> withOffset (addRawMaps st hostmap rawMaps) 0)
          else case idmapSize st isolatedStr configSize of
            Inl e \<Rightarrow> Inl e
          | Inr sz \<Rightarrow>
              if configBase \<noteq> [] then
                (case ParseInt configBase of
                   Inl e \<Rightarrow> Inl e
                 | Inr offset \<Rightarrow> withOffset (mkIdmap st rawMaps offset sz) offset)
              else case containerLoadAll st of
                Inl e \<Rightarrow> Inl e
              | Inr cts \<Rightarrow>
                  (case OS_IdmapSet st of
                     None \<Rightarrow> Inl (Panic ''nil pointer dereference'')
                   | Some [] \<Rightarrow> Inl (Panic ''index out of range'')
                   | Some (host # _) \<Rightarrow>
                       (case mapentries_of st cName cts [] of
                          Inl e \<Rightarrow> Inl e
                        | Inr mapentries \<Rightarrow>
                            (case scan (sort_key Hostid mapentries) sz 0 (int64 (Hostid host + 65536)) of
                               Inl offset \<Rightarrow> withOffset (mkIdmap st rawMaps offset sz) offset
                             | Inr offset \<Rightarrow>
                                 if int64 (offset + sz) < int64 (Hostid host + Maprange host)
                                 then withOffset (mkIdmap st rawMaps offset sz) offset
                                 else Inl (Err ''Not enough uid/gid available for the container'')))))"

text \<open>
  Two half-open intervals of host ids, each given by its base and its size, overlap
  when they share an id.
\<close>

definition overlaps :: "int \<Rightarrow> int \<Rightarrow> int \<Rightarrow> int \<Rightarrow> bool" where
  "overlaps b1 s1 b2 s2 = (max b1 b2 < min (b1 + s1) (b2 + s2))"

text \<open>
  The scan again, by recursion on the list and without the wrap-around: \<open>scan_after\<close>
  is the loop from the second entry on, \<open>e\<close> being the entry before; \<open>scan_list\<close> is
  the whole loop. The lemmas below show that \<open>scan\<close> computes them when no sum
  leaves the 64 bits, which \<open>small\<close> bounds on every number ensure.
\<close>

definition small :: "int \<Rightarrow> bool" where
  "small x = (- (2 ^ 61) < x \<and> x < 2 ^ 61)"

fun scan_after :: "int \<Rightarrow> IdmapEntry \<Rightarrow> IdmapEntry list \<Rightarrow> int + int" where
  "scan_after sz e [] = Inr (Hostid e + Maprange e)"
| "scan_after sz e (e' # es) =
     (if Hostid e + Maprange e + sz < Hostid e' then Inl (Hostid e + Maprange e)
      else scan_after sz e' es)"

definition scan_list :: "int \<Rightarrow> int \<Rightarrow> IdmapEntry list \<Rightarrow> int + int" where
  "scan_list sz start es =
     (case es of
        [] \<Rightarrow> Inr start
      | e # es' \<Rightarrow> if Hostid e < start + sz then scan_after sz e es' else Inl start)"

text \<open>
  The entries \<open>findIdmap\<close> collects for a container named \<open>cName\<close>, as (base, size)
  pairs, and what is asked of them below: each range is not empty and of small numbers,
  and no two of them overlap.
\<close>

definition other_ranges :: "State \<Rightarrow> string \<Rightarrow> containerLXC list \<Rightarrow> (int \<times> int) list" where
  "other_ranges st cName cts =
     map (\<lambda>c. case container_range st c of Inr r \<Rightarrow> r | Inl e \<Rightarrow> (0, 0))
         (filter (counted st cName) cts)"

definition range_ok :: "int \<times> int \<Rightarrow> bool" where
  "range_ok r = (small (fst r) \<and> 0 < snd r \<and> small (snd r))"

definition disjoint_ranges :: "(int \<times> int) list \<Rightarrow> bool" where
  "disjoint_ranges rs =
     (distinct rs \<and> (\<forall>r \<in> set rs. \<forall>r' \<in> set rs. r \<noteq> r' \<longrightarrow> \<not> overlaps (fst r) (snd r) (fst r') (snd r')))"

definition mapentry :: "int \<times> int \<Rightarrow> IdmapEntry" where
  "mapentry r = \<lparr>Isuid = False, Isgid = False, Hostid = fst r, Nsid = 0, Maprange = snd r\<rparr>"

text \<open>
  The offsets the scan tries: \<open>start\<close>, then the end of each range. An offset is roomy
  when more than \<open>sz\<close> ids are free from it on: the ids from \<open>p\<close> to \<open>p + sz\<close> lie
  below \<open>upper\<close> and in no range.
\<close>

definition candidates :: "int \<Rightarrow> (int \<times> int) list \<Rightarrow> int list" where
  "candidates start rs = start # map (\<lambda>r. fst r + snd r) rs"

definition roomy :: "int \<Rightarrow> int \<Rightarrow> (int \<times> int) list \<Rightarrow> int \<Rightarrow> bool" where
  "roomy sz upper rs p =
     (p + sz < upper \<and> (\<forall>r \<in> set rs. \<not> (fst r \<le> p + sz \<and> p < fst r + snd r)))"

section \<open>Update\<close>

text \<open>
  \<open>db.ContainerArgs\<close>, the fields \<open>Update\<close> reads; what the database holds for the
  container; a profile as \<open>ProfilesGet\<close> returns it (its config and its devices).
\<close>

record ContainerArgs =
  Architecture :: int
  Config :: config
  Description :: string
  Devices :: Devices
  Ephemeral :: bool
  Profiles :: "string list"
  Project :: string
  ExpiryDate :: int

record db =
  db_config :: config
  db_devices :: Devices
  db_profiles :: "string list"
  db_description :: string
  db_architecture :: int
  db_ephemeral :: bool
  db_expiryDate :: int

type_synonym Profile = "config \<times> Devices"

text \<open>
  What \<open>Update\<close> calls outside what is modelled here, each as the answer it gives (an
  error is its message): the validator \<open>containerValidConfig\<close> and the checks that
  \<open>containerValidDevices\<close> makes of each device (with their flags \<open>profile\<close> and
  \<open>expanded\<close>), the profile names of a project (\<open>c.state.Cluster.Profiles\<close>), \<open>osarch.ArchitectureName\<close>,
  \<open>shared.DeepCopy\<close>, \<open>ProfilesGet\<close> and the two expansion functions of package \<open>db\<close>,
  and \<open>json.Marshal\<close>.

  \<open>initLXC\<close> is the method of that name as far as the container and the database go:
  its error and the volatile keys that \<open>fillNetworkDevice\<close> wrote, each to the local
  config, the expanded config and the database. \<open>initStorage\<close> and \<open>AAParseProfile\<close>
  give their error.

  \<open>liveChanges\<close> stands for lines 5098 to 5771 of the source (the root disk quota, MAAS,
  the live update of a running container's config keys and devices, the cleanup of
  volatile keys): its error, and the local and expanded config it leaves.
  \<open>dbTransaction\<close> is the error of the transaction of lines 5774 to 5818, and
  \<open>afterCommit\<close> the error of what follows it (the backup file, the network leases
  and the devlxd notifications).
\<close>

record Env =
  state :: State
  containerValidConfig :: "config \<Rightarrow> bool \<Rightarrow> bool \<Rightarrow> string option"
  containerValidDevices_checks :: "Devices \<Rightarrow> bool \<Rightarrow> bool \<Rightarrow> string option"
  Cluster_Profiles :: "string \<Rightarrow> string + string list"
  ArchitectureName :: "int \<Rightarrow> string option"
  DeepCopy :: "string option"
  ProfilesGet :: "string \<Rightarrow> string list \<Rightarrow> string + Profile list"
  ProfilesExpandConfig :: "config \<Rightarrow> Profile list \<Rightarrow> config"
  ProfilesExpandDevices :: "Devices \<Rightarrow> Profile list \<Rightarrow> Devices"
  initLXC :: "containerLXC \<Rightarrow> string option \<times> (string \<times> string) list"
  initStorage :: "containerLXC \<Rightarrow> string option"
  AAParseProfile :: "containerLXC \<Rightarrow> string option"
  json_Marshal :: "IdmapEntry list \<Rightarrow> string"
  liveChanges :: "containerLXC \<Rightarrow> Devices \<times> Devices \<times> Devices \<times> string list \<Rightarrow> string list
                  \<Rightarrow> string option \<times> config \<times> config"
  dbTransaction :: "string option"
  afterCommit :: "string option"

text \<open>
  Modelled from the spec: \<open>containerValidDevices\<close>, which \<open>Update\<close> calls at lines 4826 and
  5001 and whose source is not among the files. The spec has validation refuse a
  conflicting root disk, before any mutation, and has \<open>Update\<close> with an expanded device
  set of zero or of two and more root disk devices fail validation, a root disk device
  being one of type disk at path \<open>/\<close>. So the validator, after its checks of each device,
  refuses an expanded set that does not hold exactly one such device. (The creation of a
  container, lines 370 to 393, likewise validates the expanded devices, takes the root
  disk device from them and only then looks at its pool.) The spec does not give the
  messages.
\<close>

definition rootDiskDevices :: "Devices \<Rightarrow> Devices" where
  "rootDiskDevices ds = filter (\<lambda>(k, v). get v ''type'' = ''disk'' \<and> get v ''path'' = ''/'') ds"

definition containerValidDevices :: "Env \<Rightarrow> Devices \<Rightarrow> bool \<Rightarrow> bool \<Rightarrow> string option" where
  "containerValidDevices env ds profile expanded =
     (case containerValidDevices_checks env ds profile expanded of
        Some m \<Rightarrow> Some m
      | None \<Rightarrow>
          if expanded \<and> rootDiskDevices ds = [] then Some ''No root device could be found''
          else if expanded \<and> 2 \<le> length (rootDiskDevices ds)
          then Some ''More than one root device found''
          else None)"

definition HasPrefix :: "string \<Rightarrow> string \<Rightarrow> bool" where
  "HasPrefix s p = (take (length p) s = p)"

text \<open>
  \<open>errors.Wrap(err, ctx)\<close>; a panic is not an error value and passes through. The text
  of \<open>ErrHostIdIsSubId\<close> is set in package \<open>idmap\<close>; its name stands for it.
\<close>

fun Wrap :: "string \<Rightarrow> error \<Rightarrow> error" where
  "Wrap ctx (Err m) = Err (ctx @ '': '' @ m)"
| "Wrap ctx ErrHostIdIsSubId = Err (ctx @ '': ErrHostIdIsSubId'')"
| "Wrap ctx e = e"

definition Update_defaults :: "containerLXC \<Rightarrow> ContainerArgs \<Rightarrow> ContainerArgs" where
  "Update_defaults c args =
     args\<lparr>Project := (if Project args = [] then ''default'' else Project args),
          Architecture := (if Architecture args = 0 then architecture c else Architecture args)\<rparr>"

text \<open>The loop over the requested profiles (lines 4837 to 4848).\<close>

fun checkProfiles :: "string list \<Rightarrow> string list \<Rightarrow> string list \<Rightarrow> error option" where
  "checkProfiles [] known checkedProfiles = None"
| "checkProfiles (profile # ps) known checkedProfiles =
     (if profile \<notin> set known
      then Some (Err (''Requested profile '' @ [char_of (39::nat)] @ profile @ [char_of (39::nat)] @
                      '' doesn't exist''))
      else if profile \<in> set checkedProfiles then Some (Err ''Duplicate profile found in request'')
      else checkProfiles ps known (checkedProfiles @ [profile]))"

text \<open>
  One of the two loops of lines 4860 to 4878: \<open>for k, v := range m\<close>, each volatile or
  image key compared with what \<open>other\<close> holds for it.
\<close>

fun readOnlyKeys :: "config \<Rightarrow> config \<Rightarrow> error option" where
  "readOnlyKeys [] other = None"
| "readOnlyKeys ((k, v) # m) other =
     (if HasPrefix k ''volatile.'' \<and> get other k \<noteq> v then Some (Err ''Volatile keys are read-only'')
      else if HasPrefix k ''image.'' \<and> get other k \<noteq> v then Some (Err ''Image keys are read-only'')
      else readOnlyKeys m other)"

text \<open>
  Lines 4819 to 4856: the validation of the new config, devices, profiles and
  architecture. \<open>args\<close> has its defaults.
\<close>

definition Update_validate_args :: "Env \<Rightarrow> ContainerArgs \<Rightarrow> error option" where
  "Update_validate_args env args =
     (case containerValidConfig env (Config args) False False of
        Some m \<Rightarrow> Some (Err (''Invalid config: '' @ m))
      | None \<Rightarrow>
     (case containerValidDevices env (Devices args) False False of
        Some m \<Rightarrow> Some (Err (''Invalid devices: '' @ m))
      | None \<Rightarrow>
     (case Cluster_Profiles env (Project args) of
        Inl m \<Rightarrow> Some (Err (''Failed to get profiles: '' @ m))
      | Inr known \<Rightarrow>
     (case checkProfiles (Profiles args) known [] of
        Some e \<Rightarrow> Some e
      | None \<Rightarrow>
     (case (if Architecture args \<noteq> 0 then ArchitectureName env (Architecture args) else None) of
        Some m \<Rightarrow> Some (Err (''Invalid architecture id: '' @ m))
      | None \<Rightarrow> None)))))"

text \<open>
  Lines 4819 to 4925: everything \<open>Update\<close> does before it registers the deferred
  rollback and touches the container: the validation above, the check of the volatile
  and image keys of a user's request, and the copies of the old values.
\<close>

definition Update_validate :: "Env \<Rightarrow> containerLXC \<Rightarrow> ContainerArgs \<Rightarrow> bool \<Rightarrow> error option" where
  "Update_validate env c args userRequested =
     (case Update_validate_args env args of
        Some e \<Rightarrow> Some e
      | None \<Rightarrow>
     (case (if userRequested then readOnlyKeys (Config args) (localConfig c) else None) of
        Some e \<Rightarrow> Some e
      | None \<Rightarrow>
     (case (if userRequested then readOnlyKeys (localConfig c) (Config args) else None) of
        Some e \<Rightarrow> Some e
      | None \<Rightarrow>
     (case DeepCopy env of
        Some m \<Rightarrow> Some (Err m)
      | None \<Rightarrow> None))))"

text \<open>\<open>initLXC\<close> with its effect on the container and on the database.\<close>

definition setKeys :: "(string \<times> string) list \<Rightarrow> config \<Rightarrow> config" where
  "setKeys kvs m = foldl (\<lambda>m' (k, v). setKey k v m') m kvs"

definition run_initLXC :: "Env \<Rightarrow> containerLXC \<Rightarrow> db \<Rightarrow> string option \<times> containerLXC \<times> db" where
  "run_initLXC env c d =
     (case initLXC env c of
        (e, kvs) \<Rightarrow>
          (e, c\<lparr>localConfig := setKeys kvs (localConfig c),
                expandedConfig := setKeys kvs (expandedConfig c)\<rparr>,
           d\<lparr>db_config := setKeys kvs (db_config d)\<rparr>))"

text \<open>
  The deferred closure when \<open>undoChanges\<close> is still true: every field goes back to its
  copy, then \<open>c.initLXC(true)\<close> runs again on the restored container, its error dropped.
\<close>

definition undoChanges :: "Env \<Rightarrow> containerLXC \<Rightarrow> containerLXC \<Rightarrow> db \<Rightarrow> containerLXC \<times> db" where
  "undoChanges env old c d =
     (case run_initLXC env
             (c\<lparr>description := description old, architecture := architecture old,
                ephemeral := ephemeral old, expandedConfig := expandedConfig old,
                expandedDevices := expandedDevices old, localConfig := localConfig old,
                localDevices := localDevices old, profiles := profiles old,
                expiryDate := expiryDate old\<rparr>) d of
        (e, c', d') \<Rightarrow> (c', d'))"

text \<open>\<open>expandConfig(nil)\<close> and \<open>expandDevices(nil)\<close>.\<close>

definition expandConfig :: "Env \<Rightarrow> containerLXC \<Rightarrow> string + containerLXC" where
  "expandConfig env c =
     (case (if profiles c \<noteq> [] then ProfilesGet env (project c) (profiles c) else Inr []) of
        Inl m \<Rightarrow> Inl m
      | Inr ps \<Rightarrow> Inr (c\<lparr>expandedConfig := ProfilesExpandConfig env (localConfig c) ps\<rparr>))"

definition expandDevices :: "Env \<Rightarrow> containerLXC \<Rightarrow> string + containerLXC" where
  "expandDevices env c =
     (case (if profiles c \<noteq> [] then ProfilesGet env (project c) (profiles c) else Inr []) of
        Inl m \<Rightarrow> Inl m
      | Inr ps \<Rightarrow> Inr (c\<lparr>expandedDevices := ProfilesExpandDevices env (localDevices c) ps\<rparr>))"

text \<open>The diff of the expanded configs (lines 4974 to 4989).\<close>

fun diffKeys :: "string list \<Rightarrow> config \<Rightarrow> config \<Rightarrow> string list \<Rightarrow> string list" where
  "diffKeys [] old new changedConfig = changedConfig"
| "diffKeys (key # keys) old new changedConfig =
     diffKeys keys old new
       (if get old key \<noteq> get new key \<and> key \<notin> set changedConfig
        then changedConfig @ [key] else changedConfig)"

definition changedConfig_of :: "config \<Rightarrow> config \<Rightarrow> string list" where
  "changedConfig_of old new = diffKeys (map fst new) old new (diffKeys (map fst old) old new [])"

text \<open>
  Lines 5066 to 5080: the loop \<open>for k, v := range c.expandedDevices\<close> with its variable
  \<open>newRootDiskDeviceKey\<close>, and the test after it.
\<close>

definition isRootDisk :: "Device \<Rightarrow> bool" where
  "isRootDisk v = (get v ''type'' = ''disk'' \<and> get v ''path'' = ''/'' \<and> get v ''pool'' \<noteq> [])"

fun rootDiskLoop :: "Devices \<Rightarrow> string \<Rightarrow> error + string" where
  "rootDiskLoop [] newRootDiskDeviceKey = Inr newRootDiskDeviceKey"
| "rootDiskLoop ((k, v) # ds) newRootDiskDeviceKey =
     (if isRootDisk v
      then (if newRootDiskDeviceKey \<noteq> []
            then Inl (Err ''Containers may only have one root disk device'')
            else rootDiskLoop ds k)
      else rootDiskLoop ds newRootDiskDeviceKey)"

definition newRootDiskDevice :: "Devices \<Rightarrow> error + string" where
  "newRootDiskDevice ds =
     (case rootDiskLoop ds [] of
        Inl e \<Rightarrow> Inl e
      | Inr newRootDiskDeviceKey \<Rightarrow>
          if newRootDiskDeviceKey = []
          then Inl (Err ''Containers must have a root disk device (directly or inherited)'')
          else Inr newRootDiskDeviceKey)"

text \<open>The loop with \<open>break\<close> of lines 5083 to 5089.\<close>

fun oldRootDiskDevice :: "Devices \<Rightarrow> string" where
  "oldRootDiskDevice [] = []"
| "oldRootDiskDevice ((k, v) # ds) = (if isRootDisk v then k else oldRootDiskDevice ds)"

text \<open>
  Lines 5031 to 5064, when one of the id-map keys changed: the next id-map and its base
  go to the local config.
\<close>

definition idmapKeysChanged :: "string list \<Rightarrow> bool" where
  "idmapKeysChanged changedConfig =
     (''security.idmap.isolated'' \<in> set changedConfig \<or> ''security.idmap.base'' \<in> set changedConfig \<or>
      ''security.idmap.size'' \<in> set changedConfig \<or> ''raw.idmap'' \<in> set changedConfig \<or>
      ''security.privileged'' \<in> set changedConfig)"

definition Update_idmap :: "Env \<Rightarrow> containerLXC \<Rightarrow> error + containerLXC" where
  "Update_idmap env c =
     (if \<not> IsPrivileged (state env) c then
        (case findIdmap (state env) (name c)
                (get (expandedConfig c) ''security.idmap.isolated'')
                (get (expandedConfig c) ''security.idmap.base'')
                (get (expandedConfig c) ''security.idmap.size'')
                (get (expandedConfig c) ''raw.idmap'') of
           Inl e \<Rightarrow> Inl (Wrap ''Failed to get ID map'' e)
         | Inr (idmap, base) \<Rightarrow>
             Inr (c\<lparr>localConfig :=
                      setKey ''volatile.idmap.base'' (show_int base)
                        (setKey ''volatile.idmap.next'' (json_Marshal env idmap) (localConfig c))\<rparr>))
      else Inr (c\<lparr>localConfig :=
                    setKey ''volatile.idmap.base'' (show_int 0)
                      (setKey ''volatile.idmap.next'' ''[]'' (localConfig c))\<rparr>))"

text \<open>
  Lines 5082 to 5929, after the root disk check: the pool of the root disk must not
  change; the live changes; the transaction that writes the local config, the
  profiles, the local devices and the properties; what follows the commit.
\<close>

definition Update_finish ::
    "Env \<Rightarrow> containerLXC \<Rightarrow> containerLXC \<Rightarrow> db \<Rightarrow> string \<Rightarrow> Devices \<times> Devices \<times> Devices \<times> string list
       \<Rightarrow> string list \<Rightarrow> error option \<times> containerLXC \<times> db" where
  "Update_finish env old c d newRootDiskDeviceKey diff changedConfig =
     (if get (getDevice (expandedDevices old) (oldRootDiskDevice (expandedDevices old))) ''pool'' \<noteq>
         get (getDevice (expandedDevices c) newRootDiskDeviceKey) ''pool''
      then (Some (Err ''The storage pool of the root disk can only be changed through move''), c, d)
      else case liveChanges env c diff changedConfig of
        (Some m, lc, ec) \<Rightarrow> (Some (Err m), c\<lparr>localConfig := lc, expandedConfig := ec\<rparr>, d)
      | (None, lc, ec) \<Rightarrow>
          (case dbTransaction env of
             Some m \<Rightarrow> (Some (Err (''Failed to update database: '' @ m)),
                        c\<lparr>localConfig := lc, expandedConfig := ec\<rparr>, d)
           | None \<Rightarrow>
               (map_option Err (afterCommit env),
                c\<lparr>localConfig := lc, expandedConfig := ec\<rparr>,
                d\<lparr>db_config := lc, db_devices := localDevices c, db_profiles := profiles c,
                  db_description := description c, db_architecture := architecture c,
                  db_ephemeral := ephemeral c, db_expiryDate := expiryDate c\<rparr>)))"

text \<open>
  Lines 4953 to 5064: the new values go into the container, the config and the devices
  are expanded, diffed and validated, and the id-map is renewed. The result is the error,
  if any, the container and the database as the last step left them, and the two diffs.
\<close>

definition Update_prepare ::
    "Env \<Rightarrow> containerLXC \<Rightarrow> db \<Rightarrow> ContainerArgs
       \<Rightarrow> error option \<times> containerLXC \<times> db \<times> string list \<times> (Devices \<times> Devices \<times> Devices \<times> string list)" where
  "Update_prepare env old d args =
     (let c1 = old\<lparr>description := Description args, architecture := Architecture args,
                   ephemeral := Ephemeral args, localConfig := Config args,
                   localDevices := Devices args, profiles := Profiles args,
                   expiryDate := ExpiryDate args\<rparr>
      in case expandConfig env c1 of
        Inl m \<Rightarrow> (Some (Err (''Expand config: '' @ m)), c1, d, [], ([], [], [], []))
      | Inr c2 \<Rightarrow>
     (case expandDevices env c2 of
        Inl m \<Rightarrow> (Some (Err (''Expand devices: '' @ m)), c2, d, [], ([], [], [], []))
      | Inr c3 \<Rightarrow>
     (let changedConfig = changedConfig_of (expandedConfig old) (expandedConfig c3);
          diff = Devices_Update (expandedDevices old) (expandedDevices c3)
      in case containerValidConfig env (expandedConfig c3) False True of
        Some m \<Rightarrow> (Some (Err (''Invalid expanded config: '' @ m)), c3, d, changedConfig, diff)
      | None \<Rightarrow>
     (case containerValidDevices env (expandedDevices c3) False True of
        Some m \<Rightarrow> (Some (Err (''Invalid expanded devices: '' @ m)), c3, d, changedConfig, diff)
      | None \<Rightarrow>
     (case run_initLXC env c3 d of
        (Some m, c4, d4) \<Rightarrow> (Some (Err (''Initialize LXC: '' @ m)), c4, d4, changedConfig, diff)
      | (None, c4, d4) \<Rightarrow>
     (case initStorage env c4 of
        Some m \<Rightarrow> (Some (Err (''Initialize storage: '' @ m)), c4, d4, changedConfig, diff)
      | None \<Rightarrow>
     (case (if ''raw.apparmor'' \<in> set changedConfig \<or> ''security.nesting'' \<in> set changedConfig
            then AAParseProfile env c4 else None) of
        Some m \<Rightarrow> (Some (Err (''Parse AppArmor profile: '' @ m)), c4, d4, changedConfig, diff)
      | None \<Rightarrow>
     (case (if idmapKeysChanged changedConfig then Update_idmap env c4 else Inr c4) of
        Inl e \<Rightarrow> (Some e, c4, d4, changedConfig, diff)
      | Inr c5 \<Rightarrow> (None, c5, d4, changedConfig, diff)))))))))"

text \<open>
  Lines 4953 to 5929: the steps above, the root disk check of lines 5066 to 5080, and
  the rest.
\<close>

definition Update_body ::
    "Env \<Rightarrow> containerLXC \<Rightarrow> db \<Rightarrow> ContainerArgs \<Rightarrow> error option \<times> containerLXC \<times> db" where
  "Update_body env old d args =
     (case Update_prepare env old d args of
        (Some e, c5, d4, changedConfig, diff) \<Rightarrow> (Some e, c5, d4)
      | (None, c5, d4, changedConfig, diff) \<Rightarrow>
          (case newRootDiskDevice (expandedDevices c5) of
             Inl e \<Rightarrow> (Some e, c5, d4)
           | Inr newRootDiskDeviceKey \<Rightarrow>
               Update_finish env old c5 d4 newRootDiskDeviceKey diff changedConfig))"

text \<open>
  \<open>Update(args, userRequested)\<close>: the error it returns (\<open>None\<close> for nil), the container
  and the database after the call. An error before the rollback is registered leaves
  both untouched; an error after it runs the rollback.
\<close>

definition Update ::
    "Env \<Rightarrow> containerLXC \<Rightarrow> db \<Rightarrow> ContainerArgs \<Rightarrow> bool \<Rightarrow> error option \<times> containerLXC \<times> db" where
  "Update env c d args userRequested =
     (case Update_validate env c (Update_defaults c args) userRequested of
        Some e \<Rightarrow> (Some e, c, d)
      | None \<Rightarrow>
          (case Update_body env c d (Update_defaults c args) of
             (Some e, c1, d1) \<Rightarrow> (case undoChanges env c c1 d1 of (c2, d2) \<Rightarrow> (Some e, c2, d2))
           | (None, c1, d1) \<Rightarrow> (None, c1, d1)))"

text \<open>
  The expanded device set that \<open>Update\<close> computes for a request, when the profiles can
  be read.
\<close>

definition newExpandedDevices :: "Env \<Rightarrow> containerLXC \<Rightarrow> ContainerArgs \<Rightarrow> Devices option" where
  "newExpandedDevices env c args =
     (case (if Profiles args \<noteq> [] then ProfilesGet env (project c) (Profiles args) else Inr []) of
        Inl m \<Rightarrow> None
      | Inr ps \<Rightarrow> Some (ProfilesExpandDevices env (Devices args) ps))"

section \<open>A host and an environment to run the operations in\<close>

definition host_map :: "IdmapEntry list" where
  "host_map = [\<lparr>Isuid = True, Isgid = False, Hostid = 100000, Nsid = 0, Maprange = 1000000000\<rparr>,
               \<lparr>Isuid = False, Isgid = True, Hostid = 100000, Nsid = 0, Maprange = 1000000000\<rparr>]"

definition isolated_container :: "string \<Rightarrow> string \<Rightarrow> string \<Rightarrow> containerLXC" where
  "isolated_container n base sz =
     example_container\<lparr>name := n,
        expandedConfig := [(''security.idmap.isolated'', ''true''), (''volatile.idmap.base'', base),
                           (''security.idmap.size'', sz)]\<rparr>"

definition example_State :: "containerLXC list \<Rightarrow> State" where
  "example_State cts =
     \<lparr>OS_IdmapSet = Some host_map, containerLoadAll = Inr cts,
      IsTrue = (\<lambda>s. s \<in> set [''true'', ''1'', ''yes'', ''on'']),
      AddSafe = (\<lambda>idset e. (idset @ [e], None))\<rparr>"

definition example_Env :: Env where
  "example_Env =
     \<lparr>state = example_State [], containerValidConfig = (\<lambda>m p e. None),
      containerValidDevices_checks = (\<lambda>ds p e. None), Cluster_Profiles = (\<lambda>p. Inr [''default'']),
      ArchitectureName = (\<lambda>a. None), DeepCopy = None, ProfilesGet = (\<lambda>p ns. Inr []),
      ProfilesExpandConfig = (\<lambda>m ps. m), ProfilesExpandDevices = (\<lambda>ds ps. ds),
      initLXC = (\<lambda>c. (None, [])), initStorage = (\<lambda>c. None), AAParseProfile = (\<lambda>c. None),
      json_Marshal = (\<lambda>m. ''[]''),
      liveChanges = (\<lambda>c diff changed. (None, localConfig c, expandedConfig c)),
      dbTransaction = None, afterCommit = None\<rparr>"

definition example_db :: db where
  "example_db =
     \<lparr>db_config = localConfig example_container, db_devices = localDevices example_container,
      db_profiles = [], db_description = [], db_architecture = 2, db_ephemeral = False,
      db_expiryDate = 0\<rparr>"

definition example_args :: ContainerArgs where
  "example_args =
     \<lparr>Architecture = 2, Config = localConfig example_container, Description = [],
      Devices = localDevices example_container, Ephemeral = False, Profiles = [],
      Project = ''default'', ExpiryDate = 0\<rparr>"

section \<open>Properties of the operation lock\<close>

lemma nth_update_any: "xs[a := x] ! b = (if a = b \<and> a < length xs then x else xs ! b)"
  by (cases "a < length xs") (auto simp: nth_list_update list_update_beyond)

lemma registry_invI:
  assumes "\<And>i a. lxcContainerOperations s i = Some a \<Longrightarrow>
          a < length (heap s) \<and> op_id (heap s ! a) = i \<and>
          \<not> chanDone_closed (heap s ! a) \<and> watchdog (heap s ! a)"
  shows "registry_inv s"
  using assms unfolding registry_inv_def by blast

lemma registry_inv_reg:
  "registry_inv s \<Longrightarrow> lxcContainerOperations s i = Some a \<Longrightarrow>
     a < length (heap s) \<and> op_id (heap s ! a) = i \<and>
          \<not> chanDone_closed (heap s ! a) \<and> watchdog (heap s ! a)"
  unfolding registry_inv_def by blast

lemma registry_inv_Done_step:
  assumes inv: "registry_inv s" and reg: "lxcContainerOperations s (op_id (heap s ! a)) = Some a"
  shows "registry_inv (s\<lparr>heap := (heap s)[a := (heap s ! a)\<lparr>err := e, chanDone_closed := True\<rparr>],
                       lxcContainerOperations := (lxcContainerOperations s)(op_id (heap s ! a) := None)\<rparr>)"
    (is "registry_inv ?s'")
proof (rule registry_invI)
  fix i b
  assume "lxcContainerOperations ?s' i = Some b"
  then have i: "i \<noteq> op_id (heap s ! a)" and b: "lxcContainerOperations s i = Some b"
    by (auto split: if_splits)
  from registry_inv_reg[OF inv b] i have "b \<noteq> a" by auto
  with registry_inv_reg[OF inv b]
  show "b < length (heap ?s') \<and> op_id (heap ?s' ! b) = i \<and>
        \<not> chanDone_closed (heap ?s' ! b) \<and> watchdog (heap ?s' ! b)"
    by (simp add: nth_update_any)
qed

lemma registry_inv_Done: "registry_inv s \<Longrightarrow> Done a e s = Inr s' \<Longrightarrow> registry_inv s'"
  unfolding Done_def Let_def
  by (auto split: if_splits option.splits intro: registry_inv_Done_step)

lemma registry_inv_new:
  assumes inv: "registry_inv s"
  shows "registry_inv (s\<lparr>heap := heap s @ [Create i act r],
             lxcContainerOperations := (lxcContainerOperations s)(i \<mapsto> length (heap s))\<rparr>)"
    (is "registry_inv ?s'")
proof (rule registry_invI)
  fix j b
  assume "lxcContainerOperations ?s' j = Some b"
  then consider "j = i" "b = length (heap s)" | "j \<noteq> i" "lxcContainerOperations s j = Some b"
    by (auto split: if_splits)
  then show "b < length (heap ?s') \<and> op_id (heap ?s' ! b) = j \<and>
        \<not> chanDone_closed (heap ?s' ! b) \<and> watchdog (heap ?s' ! b)"
  proof cases
    case 1
    then show ?thesis by (simp add: Create_def)
  next
    case 2
    with registry_inv_reg[OF inv 2(2)] show ?thesis by (simp add: nth_append)
  qed
qed

lemma registry_inv_init: "registry_inv oplock_init"
  by (simp add: registry_inv_def oplock_init_def)

lemma registry_inv_Reset: "registry_inv s \<Longrightarrow> Reset a s = Inr s' \<Longrightarrow> registry_inv s'"
  by (auto simp: registry_inv_def Reset_def Let_def nth_update_any split: if_splits)

lemma registry_inv_insert:
  "registry_inv s \<Longrightarrow> createOperation_insert c act r s = (res, s') \<Longrightarrow> registry_inv s'"
  using registry_inv_new[of s "cid c" act r] by (auto simp: createOperation_insert_def)

lemma createOperation_lookup_None:
  "createOperation_lookup c reuse s = None \<longleftrightarrow> lxcContainerOperations s (cid c) = None"
  by (auto simp: createOperation_lookup_def getOperation_def split: option.splits)



lemma registry_inv_elapsed:
  "registry_inv s \<Longrightarrow> registry_inv (s\<lparr>heap := (heap s)[a := (heap s ! a)\<lparr>elapsed := n\<rparr>]\<rparr>)"
  by (auto simp: registry_inv_def nth_update_any)

lemma Done_unregistered:
  "Done a e s = Inr s' \<Longrightarrow> a < length (heap s') \<and> lxcContainerOperations s' (op_id (heap s' ! a)) \<noteq> Some a"
  by (auto simp: Done_def Let_def split: if_splits option.splits)

lemma registry_inv_watchdog_off:
  "registry_inv s \<Longrightarrow> lxcContainerOperations s (op_id (heap s ! a)) \<noteq> Some a \<Longrightarrow>
   registry_inv (s\<lparr>heap := (heap s)[a := (heap s ! a)\<lparr>watchdog := False\<rparr>]\<rparr>)"
  unfolding registry_inv_def
  by (auto simp: nth_update_any)

lemma registry_inv_watchdog_tick:
  assumes "registry_inv s" "watchdog_tick a s = Inr s'"
  shows "registry_inv s'"
proof (cases "watchdog (heap s ! a)")
  case False
  with assms show ?thesis by (simp add: watchdog_tick_def Let_def)
next
  case True
  show ?thesis
  proof (cases "Suc (elapsed (heap s ! a)) < 30")
    case True
    with assms \<open>watchdog (heap s ! a)\<close> have "s' = s\<lparr>heap := (heap s)[a := (heap s ! a)\<lparr>elapsed := Suc (elapsed (heap s ! a))\<rparr>]\<rparr>"
      by (simp add: watchdog_tick_def Let_def)
    with assms(1) show ?thesis by (simp add: registry_inv_elapsed)
  next
    case False
    with assms(2) \<open>watchdog (heap s ! a)\<close> obtain s1 where
      d: "Done a (Some (timeout_error (heap s ! a))) s = Inr s1" and
      s': "s' = s1\<lparr>heap := (heap s1)[a := (heap s1 ! a)\<lparr>watchdog := False\<rparr>]\<rparr>"
      by (auto simp: watchdog_tick_def Let_def split: sum.splits)
    from registry_inv_Done[OF assms(1) d] Done_unregistered[OF d] show ?thesis
      unfolding s' by (intro registry_inv_watchdog_off) simp_all
  qed
qed

lemma registry_inv_tick_ops:
  "registry_inv s \<Longrightarrow> tick_ops as s = Inr s' \<Longrightarrow> registry_inv s'"
proof (induction as arbitrary: s)
  case Nil
  then show ?case by simp
next
  case (Cons a as)
  from Cons.prems(2) obtain s1 where 1: "watchdog_tick a s = Inr s1" and 2: "tick_ops as s1 = Inr s'"
    by (auto split: sum.splits)
  from Cons.IH[OF registry_inv_watchdog_tick[OF Cons.prems(1) 1] 2] show ?case .
qed

lemma registry_inv_tick: "registry_inv s \<Longrightarrow> tick s = Inr s' \<Longrightarrow> registry_inv s'"
  unfolding tick_def by (rule registry_inv_tick_ops)

lemma reachable_registry_inv: "reachable s \<Longrightarrow> registry_inv s"
proof (induction rule: reachable.induct)
  case r_init
  show ?case by (rule registry_inv_init)
next
  case (r_insert s c act r res s')
  then show ?case by (blast intro: registry_inv_insert)
next
  case (r_done s a e s')
  then show ?case by (blast intro: registry_inv_Done)
next
  case (r_reset s a s')
  then show ?case by (blast intro: registry_inv_Reset)
next
  case (r_tick s s')
  then show ?case by (blast intro: registry_inv_tick)
qed

lemma insert_first:
  "createOperation_insert example_container act r oplock_init =
     (Inr 0, \<lparr>heap = [Create 1 act r], lxcContainerOperations = [1 \<mapsto> 0]\<rparr>)"
  by (simp add: createOperation_insert_def oplock_init_def example_container_def)


lemma reachable_first: "reachable \<lparr>heap = [Create 1 act r], lxcContainerOperations = [1 \<mapsto> 0]\<rparr>"
  using r_insert[OF r_init insert_first] .

text \<open>
  A whole call of \<open>createOperation\<close> that finds an operation registered for the container
  id, the reuse path not applying, returns the busy error and changes nothing.
\<close>

lemma createOperation_registered:
  assumes "lxcContainerOperations s (cid c) = Some a" "\<not> (reuse \<and> reusable (heap s ! a))"
  shows "createOperation c act r reuse s =
           (Inl (Err (''Container is busy running a '' @ action (heap s ! a) @ '' operation'')), s)"
  using assms by (auto simp: createOperation_def createOperation_lookup_def getOperation_def)

text \<open>
  Claim C5, on the code: two calls of \<open>createOperation\<close> for the container 1 that both
  look the registry up while it is empty. Each goes on to insert; neither gets the busy
  error; two live operations of container 1 exist, of which the registry holds the
  second. The first one can no longer be finished: its \<open>Done\<close> changes nothing. Had the
  second call looked after the first one's insertion, it would have got the busy error.
\<close>

theorem createOperation_race:
  "createOperation_lookup example_container False oplock_init = None \<and>
   createOperation_insert example_container ''start'' False oplock_init =
     (Inr 0, \<lparr>heap = [Create 1 ''start'' False], lxcContainerOperations = [1 \<mapsto> 0]\<rparr>) \<and>
   createOperation_insert example_container ''stop'' False
       \<lparr>heap = [Create 1 ''start'' False], lxcContainerOperations = [1 \<mapsto> 0]\<rparr> =
     (Inr 1, \<lparr>heap = [Create 1 ''start'' False, Create 1 ''stop'' False],
              lxcContainerOperations = [1 \<mapsto> 1]\<rparr>) \<and>
   live \<lparr>heap = [Create 1 ''start'' False, Create 1 ''stop'' False],
         lxcContainerOperations = [1 \<mapsto> 1]\<rparr> 0 \<and>
   live \<lparr>heap = [Create 1 ''start'' False, Create 1 ''stop'' False],
         lxcContainerOperations = [1 \<mapsto> 1]\<rparr> 1 \<and>
   Done 0 None \<lparr>heap = [Create 1 ''start'' False, Create 1 ''stop'' False],
                 lxcContainerOperations = [1 \<mapsto> 1]\<rparr> =
     Inr \<lparr>heap = [Create 1 ''start'' False, Create 1 ''stop'' False],
          lxcContainerOperations = [1 \<mapsto> 1]\<rparr> \<and>
   createOperation_lookup example_container False
       \<lparr>heap = [Create 1 ''start'' False], lxcContainerOperations = [1 \<mapsto> 0]\<rparr> =
     Some (Inl (Err ''Container is busy running a start operation''),
           \<lparr>heap = [Create 1 ''start'' False], lxcContainerOperations = [1 \<mapsto> 0]\<rparr>)"
proof -
  have 1: "createOperation_lookup example_container False oplock_init = None"
    by (simp add: createOperation_lookup_None oplock_init_def)
  have 3: "createOperation_insert example_container ''stop'' False
       \<lparr>heap = [Create 1 ''start'' False], lxcContainerOperations = [1 \<mapsto> 0]\<rparr> =
     (Inr 1, \<lparr>heap = [Create 1 ''start'' False, Create 1 ''stop'' False],
              lxcContainerOperations = [1 \<mapsto> 1]\<rparr>)"
    by (simp add: createOperation_insert_def example_container_def)
  have 4: "live \<lparr>heap = [Create 1 ''start'' False, Create 1 ''stop'' False],
         lxcContainerOperations = [1 \<mapsto> 1]\<rparr> 0"
    "live \<lparr>heap = [Create 1 ''start'' False, Create 1 ''stop'' False],
         lxcContainerOperations = [1 \<mapsto> 1]\<rparr> 1"
    by (simp_all add: live_def Create_def)
  have 5: "Done 0 None \<lparr>heap = [Create 1 ''start'' False, Create 1 ''stop'' False],
                 lxcContainerOperations = [1 \<mapsto> 1]\<rparr> =
     Inr \<lparr>heap = [Create 1 ''start'' False, Create 1 ''stop'' False],
          lxcContainerOperations = [1 \<mapsto> 1]\<rparr>"
    by (simp add: Done_def Create_def)
  have 6: "createOperation_lookup example_container False
       \<lparr>heap = [Create 1 ''start'' False], lxcContainerOperations = [1 \<mapsto> 0]\<rparr> =
     Some (Inl (Err ''Container is busy running a start operation''),
           \<lparr>heap = [Create 1 ''start'' False], lxcContainerOperations = [1 \<mapsto> 0]\<rparr>)"
    by (simp add: createOperation_lookup_def getOperation_def example_container_def Create_def)
  from 1 insert_first[of "''start''" False] 3 4 5 6 show ?thesis by blast
qed

lemma Done_not_current:
  "a < length (heap s) \<Longrightarrow> lxcContainerOperations s (op_id (heap s ! a)) \<noteq> Some a \<Longrightarrow> Done a e s = Inr s"
  by (simp add: Done_def Let_def split: option.splits)

lemma Done_returns:
  assumes "registry_inv s" "a < length (heap s)"
  shows "\<exists>s'. Done a e s = Inr s'"
proof (cases "lxcContainerOperations s (op_id (heap s ! a)) = Some a")
  case True
  from registry_inv_reg[OF assms(1) True] have "\<not> chanDone_closed (heap s ! a)" by blast
  with True assms(2) show ?thesis by (simp add: Done_def Let_def)
next
  case False
  with assms(2) show ?thesis by (simp add: Done_not_current)
qed


text \<open>
  Claim C7. \<open>Done\<close> is idempotent. On every reachable registry state and for every
  operation handed out, \<open>Done\<close> returns (it never closes a closed channel), and a further
  \<open>Done\<close>, with whatever error, changes nothing: the registry, the stored error and the
  done-signal stay as the first call left them. When the operation is not the one
  registered for its container id, already the first call changes nothing.
\<close>

theorem Done_idempotent:
  assumes "reachable s" "a < length (heap s)"
  shows "\<exists>s1. Done a e1 s = Inr s1 \<and> Done a e2 s1 = Inr s1 \<and>
              (lxcContainerOperations s (op_id (heap s ! a)) \<noteq> Some a \<longrightarrow> s1 = s)"
proof -
  from Done_returns[OF reachable_registry_inv[OF assms(1)] assms(2)]
  obtain s1 where d: "Done a e1 s = Inr s1" by blast
  from Done_unregistered[OF d] have "Done a e2 s1 = Inr s1" by (simp add: Done_not_current)
  moreover have "lxcContainerOperations s (op_id (heap s ! a)) \<noteq> Some a \<longrightarrow> s1 = s"
    using d assms(2) by (auto simp: Done_not_current)
  ultimately show ?thesis using d by blast
qed

theorem Done_idempotent_witness:
  "reachable \<lparr>heap = [Create 1 ''stop'' False], lxcContainerOperations = [1 \<mapsto> 0]\<rparr> \<and>
   (0::nat) < length (heap \<lparr>heap = [Create 1 ''stop'' False], lxcContainerOperations = [1 \<mapsto> 0]\<rparr>) \<and>
   (\<exists>s1. Done 0 None \<lparr>heap = [Create 1 ''stop'' False], lxcContainerOperations = [1 \<mapsto> 0]\<rparr> = Inr s1 \<and>
         Done 0 (Some ''late'') s1 = Inr s1 \<and>
         lxcContainerOperations s1 1 = None \<and> err (heap s1 ! 0) = None \<and> chanDone_closed (heap s1 ! 0))"
proof -
  let ?s = "\<lparr>heap = [Create 1 ''stop'' False], lxcContainerOperations = [1 \<mapsto> 0]\<rparr>"
  have r: "reachable ?s" by (rule reachable_first)
  have l: "(0::nat) < length (heap ?s)" by simp
  from Done_idempotent[OF r l, of None "Some ''late''"]
  obtain s1 where s1: "Done 0 None ?s = Inr s1" "Done 0 (Some ''late'') s1 = Inr s1" by blast
  from s1(1) have "lxcContainerOperations s1 1 = None \<and> err (heap s1 ! 0) = None \<and> chanDone_closed (heap s1 ! 0)"
    by (auto simp: Done_def Create_def)
  with r l s1 show ?thesis by blast
qed


























section \<open>Properties of the device diff\<close>

lemma deviceEquals_refl: "deviceEquals d d"
  by (simp add: deviceEquals_def)

lemma deviceEqualsDiffKeys_refl: "deviceEqualsDiffKeys d d = []"
  by (simp add: deviceEqualsDiffKeys_def)

lemma map_of_member: "(k, d) \<in> set X \<Longrightarrow> map_of X k \<noteq> None"
  by (metis map_of_eq_None_iff fst_conv image_eqI)

text \<open>
  Claim C8. For every device set \<open>X\<close>, the device diff of \<open>X\<close> with itself has no removed,
  no added and no updated device (and no changed key).
\<close>

theorem Devices_Update_same: "Devices_Update X X = ([], [], [], [])"
proof -
  have 1: "filter (\<lambda>(k, d). map_of X k = None) X = []"
    by (auto simp: filter_empty_conv dest: map_of_member)
  have 2: "filter (\<lambda>(k, d). map_of X k \<noteq> None \<and> \<not> deviceEquals (getDevice X k) (getDevice X k)) X = []"
    by (simp add: deviceEquals_refl)
  have 3: "concat (map (\<lambda>(k, d). if map_of X k = None then []
                      else deviceEqualsDiffKeys (getDevice X k) (getDevice X k)) X) = []"
    by (auto simp: deviceEqualsDiffKeys_refl)
  show ?thesis unfolding Devices_Update_def 1 2 3 by simp
qed

section \<open>Properties of Update\<close>

lemma rootDiskLoop_none:
  "\<forall>(k, v) \<in> set ds. \<not> isRootDisk v \<Longrightarrow> rootDiskLoop ds key = Inr key"
  by (induction ds arbitrary: key) auto

lemma rootDiskLoop_second:
  "key \<noteq> [] \<Longrightarrow> \<exists>(k, v) \<in> set ds. isRootDisk v \<Longrightarrow>
   rootDiskLoop ds key = Inl (Err ''Containers may only have one root disk device'')"
proof (induction ds arbitrary: key)
  case Nil
  then show ?case by simp
next
  case (Cons x ds)
  obtain k v where x: "x = (k, v)" by (cases x)
  show ?case
  proof (cases "isRootDisk v")
    case True
    with Cons.prems(1) x show ?thesis by simp
  next
    case False
    with Cons.prems(2) x have "\<exists>(k, v) \<in> set ds. isRootDisk v" by auto
    from Cons.IH[OF Cons.prems(1) this] False x show ?thesis by simp
  qed
qed

lemma filter_nonempty_ex: "filter P xs \<noteq> [] \<Longrightarrow> \<exists>x \<in> set xs. P x"
  by (induction xs) (auto split: if_splits)

lemma rootDiskLoop_two:
  "[] \<notin> fst ` set ds \<Longrightarrow> 2 \<le> length (filter (\<lambda>(k, v). isRootDisk v) ds) \<Longrightarrow>
   rootDiskLoop ds [] = Inl (Err ''Containers may only have one root disk device'')"
proof (induction ds)
  case Nil
  then show ?case by simp
next
  case (Cons x ds)
  obtain k v where x: "x = (k, v)" by (cases x)
  show ?case
  proof (cases "isRootDisk v")
    case True
    with Cons.prems x have "filter (\<lambda>(k, v). isRootDisk v) ds \<noteq> []" and k: "k \<noteq> []" by auto
    from filter_nonempty_ex[OF this(1)] have "\<exists>(k, v) \<in> set ds. isRootDisk v" by auto
    from rootDiskLoop_second[OF k this] True x show ?thesis by simp
  next
    case False
    with Cons x show ?thesis by auto
  qed
qed

lemma newRootDiskDevice_zero:
  assumes "filter (\<lambda>(k, v). isRootDisk v) ds = []"
  shows "newRootDiskDevice ds = Inl (Err ''Containers must have a root disk device (directly or inherited)'')"
proof -
  from assms have "\<forall>(k, v) \<in> set ds. \<not> isRootDisk v" by (auto simp: filter_empty_conv)
  from rootDiskLoop_none[OF this] show ?thesis by (simp add: newRootDiskDevice_def)
qed

lemma newRootDiskDevice_not_one:
  assumes "[] \<notin> fst ` set ds" "length (filter (\<lambda>(k, v). isRootDisk v) ds) \<noteq> 1"
  shows "\<exists>e. newRootDiskDevice ds = Inl e"
proof (cases "filter (\<lambda>(k, v). isRootDisk v) ds = []")
  case True
  from newRootDiskDevice_zero[OF this] show ?thesis by blast
next
  case False
  with assms(2) have "2 \<le> length (filter (\<lambda>(k, v). isRootDisk v) ds)"
    by (cases "filter (\<lambda>(k, v). isRootDisk v) ds") (auto simp: Suc_le_eq)
  from rootDiskLoop_two[OF assms(1) this] show ?thesis by (simp add: newRootDiskDevice_def)
qed

lemma setKeys_Nil: "setKeys [] m = m"
  by (simp add: setKeys_def)

lemma restore_same:
  assumes "cid c1 = cid old" "project c1 = project old" "name c1 = name old"
  shows "c1\<lparr>description := description old, architecture := architecture old,
                ephemeral := ephemeral old, expandedConfig := expandedConfig old,
                expandedDevices := expandedDevices old, localConfig := localConfig old,
                localDevices := localDevices old, profiles := profiles old,
                expiryDate := expiryDate old\<rparr> = (old::containerLXC)"
  using assms by (intro containerLXC.equality) simp_all

lemma expandConfig_frame:
  "expandConfig env c = Inr c' \<Longrightarrow>
     cid c' = cid c \<and> project c' = project c \<and> name c' = name c \<and> profiles c' = profiles c \<and>
     localDevices c' = localDevices c \<and> expandedDevices c' = expandedDevices c"
  by (auto simp: expandConfig_def split: sum.splits)

lemma expandDevices_frame:
  "expandDevices env c = Inr c' \<Longrightarrow>
     cid c' = cid c \<and> project c' = project c \<and> name c' = name c \<and>
     (\<exists>ps. (if profiles c \<noteq> [] then ProfilesGet env (project c) (profiles c) else Inr []) = Inr ps \<and>
           expandedDevices c' = ProfilesExpandDevices env (localDevices c) ps)"
  by (auto simp: expandDevices_def split: sum.splits)

lemma run_initLXC_frame:
  "run_initLXC env c d = (e, c', d') \<Longrightarrow>
     cid c' = cid c \<and> project c' = project c \<and> name c' = name c \<and>
     expandedDevices c' = expandedDevices c \<and> db_devices d' = db_devices d"
  by (auto simp: run_initLXC_def split: prod.splits)

lemma Update_idmap_frame:
  "Update_idmap env c = Inr c' \<Longrightarrow>
     cid c' = cid c \<and> project c' = project c \<and> name c' = name c \<and>
     expandedDevices c' = expandedDevices c"
  by (auto simp: Update_idmap_def split: sum.splits if_splits prod.splits)

lemma Update_prepare_frame:
  assumes "Update_prepare env old d args = (r, c5, d5, cc, diff)"
  shows "cid c5 = cid old \<and> project c5 = project old \<and> name c5 = name old \<and>
         db_devices d5 = db_devices d"
  using assms unfolding Update_prepare_def Let_def
  by (auto split: sum.splits option.splits prod.splits if_splits
           dest!: expandConfig_frame expandDevices_frame run_initLXC_frame Update_idmap_frame)

lemma Update_prepare_devices:
  assumes "Update_prepare env old d args = (None, c5, d5, cc, diff)"
  shows "newExpandedDevices env old args = Some (expandedDevices c5)"
  using assms unfolding Update_prepare_def Let_def newExpandedDevices_def
  by (auto split: sum.splits option.splits prod.splits if_splits
           dest!: expandConfig_frame expandDevices_frame run_initLXC_frame Update_idmap_frame)

lemma Update_prepare_no_devices:
  assumes "Update_prepare env old d args = (r, c5, d5, cc, diff)"
    "newExpandedDevices env old args = None"
  shows "r \<noteq> None"
  using assms Update_prepare_devices[of env old d args c5 d5 cc diff] by (cases r) auto

lemma undoChanges_result:
  assumes "cid c1 = cid old" "project c1 = project old" "name c1 = name old"
  shows "undoChanges env old c1 d1 =
           (old\<lparr>localConfig := setKeys (snd (initLXC env old)) (localConfig old),
                expandedConfig := setKeys (snd (initLXC env old)) (expandedConfig old)\<rparr>,
            d1\<lparr>db_config := setKeys (snd (initLXC env old)) (db_config d1)\<rparr>)"
  unfolding undoChanges_def restore_same[OF assms]
  by (simp add: run_initLXC_def split: prod.splits)

lemma newExpandedDevices_defaults:
  "newExpandedDevices env c (Update_defaults c args) = newExpandedDevices env c args"
proof -
  have h: "Devices (Update_defaults c args) = Devices args"
    "Profiles (Update_defaults c args) = Profiles args"
    by (simp_all add: Update_defaults_def)
  show ?thesis unfolding newExpandedDevices_def h ..
qed

lemma Update_fails_before_finish:
  assumes v: "Update_validate env c (Update_defaults c args) userRequested = None"
    and p: "Update_prepare env c d (Update_defaults c args) = (r, c5, d5, cc, diff)"
    and e: "r = Some e \<or> (r = None \<and> newRootDiskDevice (expandedDevices c5) = Inl e)"
  shows "Update env c d args userRequested =
           (Some e,
            c\<lparr>localConfig := setKeys (snd (initLXC env c)) (localConfig c),
              expandedConfig := setKeys (snd (initLXC env c)) (expandedConfig c)\<rparr>,
            d5\<lparr>db_config := setKeys (snd (initLXC env c)) (db_config d5)\<rparr>)"
proof -
  from e p have b: "Update_body env c d (Update_defaults c args) = (Some e, c5, d5)"
    by (auto simp: Update_body_def)
  from Update_prepare_frame[OF p]
  have "cid c5 = cid c" "project c5 = project c" "name c5 = name c" by simp_all
  from undoChanges_result[OF this] v b show ?thesis by (simp add: Update_def)
qed



text \<open>
  What the root disk check of \<open>Update\<close> itself refuses, whatever the validators let
  through: an expanded device set, every device of which has a name, that holds no
  device of type disk at path \<open>/\<close> with a pool, or more than one.
\<close>

lemma Update_root_disk_check:
  assumes "newExpandedDevices env c args = Some ds"
    and "[] \<notin> fst ` set ds"
    and "length (filter (\<lambda>(k, v). isRootDisk v) ds) \<noteq> 1"
  shows "\<exists>e c' d'. Update env c d args userRequested = (Some e, c', d') \<and>
           localDevices c' = localDevices c \<and> expandedDevices c' = expandedDevices c \<and>
           db_devices d' = db_devices d"
proof (cases "Update_validate env c (Update_defaults c args) userRequested")
  case (Some e)
  then have "Update env c d args userRequested = (Some e, c, d)" by (simp add: Update_def)
  then show ?thesis by simp
next
  case None
  obtain r c5 d5 cc diff where p: "Update_prepare env c d (Update_defaults c args) = (r, c5, d5, cc, diff)"
    by (cases "Update_prepare env c d (Update_defaults c args)") auto
  have "\<exists>e. r = Some e \<or> (r = None \<and> newRootDiskDevice (expandedDevices c5) = Inl e)"
  proof (cases r)
    case None
    with Update_prepare_devices[of env c d "Update_defaults c args" c5 d5 cc diff] p assms(1)
    have "expandedDevices c5 = ds" by (simp add: newExpandedDevices_defaults)
    with newRootDiskDevice_not_one[OF assms(2,3)] None show ?thesis by simp
  qed simp
  then obtain e where e: "r = Some e \<or> (r = None \<and> newRootDiskDevice (expandedDevices c5) = Inl e)"
    by blast
  from Update_prepare_frame[OF p] have "db_devices d5 = db_devices d" by simp
  with Update_fails_before_finish[OF None p e] show ?thesis by simp
qed



lemma Update_fails_at_root_disk:
  assumes "Update_validate env c (Update_defaults c args) userRequested = None"
    and "Update_prepare env c d (Update_defaults c args) = (None, c5, d5, cc, diff)"
    and "newRootDiskDevice (expandedDevices c5) = Inl e"
  shows "fst (Update env c d args userRequested) = Some e"
  using Update_fails_before_finish[OF assms(1,2), of e] assms(3) by simp

text \<open>
  Claim C10. \<open>Update\<close> counts a device as a root disk device only when its type is disk,
  its path is \<open>/\<close> and its pool is not empty. When \<open>Update\<close> gets as far as the root disk
  check and the only disk device at path \<open>/\<close> of the expanded set has an empty pool, the
  check fails, and \<open>Update\<close> with it, with
  \<open>Containers must have a root disk device (directly or inherited)\<close>.
\<close>

theorem Update_root_disk_needs_pool:
  assumes "Update_validate env c (Update_defaults c args) userRequested = None"
    and "Update_prepare env c d (Update_defaults c args) = (None, c5, d5, cc, diff)"
    and "(k, v) \<in> set (expandedDevices c5)"
    and "get v ''type'' = ''disk''" "get v ''path'' = ''/''" "get v ''pool'' = []"
    and "\<forall>(k', v') \<in> set (expandedDevices c5).
           get v' ''type'' = ''disk'' \<and> get v' ''path'' = ''/'' \<longrightarrow> (k', v') = (k, v)"
  shows "newRootDiskDevice (expandedDevices c5) =
           Inl (Err ''Containers must have a root disk device (directly or inherited)'') \<and>
         fst (Update env c d args userRequested) =
           Some (Err ''Containers must have a root disk device (directly or inherited)'')"
proof -
  have "filter (\<lambda>(k, v). isRootDisk v) (expandedDevices c5) = []"
    using assms(6,7) by (auto simp: filter_empty_conv isRootDisk_def)
  from newRootDiskDevice_zero[OF this] Update_fails_at_root_disk[OF assms(1,2)]
  show ?thesis by simp
qed

theorem Update_root_disk_needs_pool_witness:
  "Update_validate example_Env example_container
      (Update_defaults example_container
         (example_args\<lparr>Devices := [(''root'', [(''type'', ''disk''), (''path'', ''/'')])]\<rparr>)) True = None \<and>
   fst (Update_prepare example_Env example_container example_db
      (Update_defaults example_container
         (example_args\<lparr>Devices := [(''root'', [(''type'', ''disk''), (''path'', ''/'')])]\<rparr>))) = None \<and>
   fst (Update example_Env example_container example_db
         (example_args\<lparr>Devices := [(''root'', [(''type'', ''disk''), (''path'', ''/'')])]\<rparr>) True) =
     Some (Err ''Containers must have a root disk device (directly or inherited)'')"
proof -
  let ?args = "example_args\<lparr>Devices := [(''root'', [(''type'', ''disk''), (''path'', ''/'')])]\<rparr>"
  have v: "Update_validate example_Env example_container (Update_defaults example_container ?args) True = None"
    by code_simp
  have f: "fst (Update_prepare example_Env example_container example_db
              (Update_defaults example_container ?args)) = None"
    by code_simp
  have ds: "expandedDevices (fst (snd (Update_prepare example_Env example_container example_db
              (Update_defaults example_container ?args)))) =
            [(''root'', [(''type'', ''disk''), (''path'', ''/'')])]"
    by code_simp
  obtain r c5 d5 cc diff where p: "Update_prepare example_Env example_container example_db
              (Update_defaults example_container ?args) = (r, c5, d5, cc, diff)"
    by (cases "Update_prepare example_Env example_container example_db
              (Update_defaults example_container ?args)") auto
  with f ds have r: "r = None" and c5: "expandedDevices c5 = [(''root'', [(''type'', ''disk''), (''path'', ''/'')])]"
    by simp_all
  have m: "(''root'', [(''type'', ''disk''), (''path'', ''/'')]) \<in> set (expandedDevices c5)"
    unfolding c5 by simp
  have g: "get [(''type'', ''disk''), (''path'', ''/'')] ''type'' = ''disk''"
    "get [(''type'', ''disk''), (''path'', ''/'')] ''path'' = ''/''"
    "get [(''type'', ''disk''), (''path'', ''/'')] ''pool'' = []"
    by (simp_all add: get_def)
  have u: "\<forall>(k', v') \<in> set (expandedDevices c5).
           get v' ''type'' = ''disk'' \<and> get v' ''path'' = ''/'' \<longrightarrow>
           (k', v') = (''root'', [(''type'', ''disk''), (''path'', ''/'')])"
    unfolding c5 by simp
  from Update_root_disk_needs_pool[OF v p[unfolded r] m g u] v f show ?thesis by blast
qed

lemma readOnlyKeys_None:
  "readOnlyKeys m other = None \<Longrightarrow> (k, v) \<in> set m \<Longrightarrow>
   HasPrefix k ''volatile.'' \<or> HasPrefix k ''image.'' \<Longrightarrow> get other k = v"
  by (induction m) (auto split: if_splits)

lemma readOnlyKeys_Some:
  "readOnlyKeys m other = Some e \<Longrightarrow>
   e = Err ''Volatile keys are read-only'' \<or> e = Err ''Image keys are read-only''"
  by (induction m) (auto split: if_splits)

lemma get_member: "get m k \<noteq> [] \<Longrightarrow> (k, get m k) \<in> set m"
  by (auto simp: get_def split: option.splits dest: map_of_SomeD)

lemma readOnlyKeys_differ:
  assumes "HasPrefix k ''volatile.'' \<or> HasPrefix k ''image.''"
    and "get new k \<noteq> get old k"
  shows "readOnlyKeys new old \<noteq> None \<or> readOnlyKeys old new \<noteq> None"
proof (rule ccontr)
  assume "\<not> ?thesis"
  then have n: "readOnlyKeys new old = None" "readOnlyKeys old new = None" by simp_all
  show False
  proof (cases "get new k = []")
    case False
    from readOnlyKeys_None[OF n(1) get_member[OF False] assms(1)] assms(2) show False by simp
  next
    case True
    with assms(2) have "get old k \<noteq> []" by simp
    from readOnlyKeys_None[OF n(2) get_member[OF this] assms(1)] assms(2) show False by simp
  qed
qed

text \<open>
  Claim C9, as stated, fails for a key that is added or removed with an empty value:
  reading a missing key of a Go map gives the empty string, so the two configs are not
  told apart. Here the request adds \<open>image.description\<close> with an empty value to a local
  config that does not have the key, and \<open>Update\<close> succeeds.
\<close>

theorem Update_read_only_counterexample:
  "map_of [(''volatile.base_image'', ''abc''), (''image.description'', [])] ''image.description''
     \<noteq> map_of (localConfig example_container) ''image.description'' \<and>
   fst (Update example_Env example_container example_db
         (example_args\<lparr>Config := [(''volatile.base_image'', ''abc''), (''image.description'', [])]\<rparr>)
         True) = None"
  by code_simp

text \<open>
  Claim C9, amended. For every \<open>Update\<close> with \<open>userRequested = true\<close>, if the value of any
  key beginning with \<open>volatile.\<close> or \<open>image.\<close> differs between the supplied config and
  the container's local config, a missing key counting as the empty string, then
  \<open>Update\<close> returns an error and leaves the container and the database untouched; when
  the validation of the request that comes first passes, the error is
  \<open>Volatile keys are read-only\<close> or \<open>Image keys are read-only\<close>.
\<close>

theorem Update_read_only_keys:
  assumes "HasPrefix k ''volatile.'' \<or> HasPrefix k ''image.''"
    and "get (Config args) k \<noteq> get (localConfig c) k"
  shows "\<exists>e. Update env c d args True = (Some e, c, d) \<and>
              (Update_validate_args env (Update_defaults c args) = None \<longrightarrow>
                 e = Err ''Volatile keys are read-only'' \<or> e = Err ''Image keys are read-only'')"
proof -
  have cfg: "Config (Update_defaults c args) = Config args" by (simp add: Update_defaults_def)
  show ?thesis
  proof (cases "Update_validate_args env (Update_defaults c args)")
    case (Some e)
    then have "Update env c d args True = (Some e, c, d)"
      by (simp add: Update_def Update_validate_def)
    with Some show ?thesis by simp
  next
    case None
    show ?thesis
    proof (cases "readOnlyKeys (Config args) (localConfig c)")
      case (Some e)
      with None have "Update env c d args True = (Some e, c, d)"
        by (simp add: Update_def Update_validate_def cfg)
      with readOnlyKeys_Some[OF Some] show ?thesis by simp
    next
      case n1: None
      with readOnlyKeys_differ[OF assms] obtain e where e: "readOnlyKeys (localConfig c) (Config args) = Some e"
        by auto
      with None n1 have "Update env c d args True = (Some e, c, d)"
        by (simp add: Update_def Update_validate_def cfg)
      with readOnlyKeys_Some[OF e] show ?thesis by simp
    qed
  qed
qed

theorem Update_read_only_keys_witness:
  "(HasPrefix ''volatile.base_image'' ''volatile.'' \<or> HasPrefix ''volatile.base_image'' ''image.'') \<and>
   get (Config (example_args\<lparr>Config := []\<rparr>)) ''volatile.base_image''
     \<noteq> get (localConfig example_container) ''volatile.base_image'' \<and>
   Update example_Env example_container example_db (example_args\<lparr>Config := []\<rparr>) True =
     (Some (Err ''Volatile keys are read-only''), example_container, example_db)"
proof -
  have 1: "HasPrefix ''volatile.base_image'' ''volatile.'' \<or> HasPrefix ''volatile.base_image'' ''image.''"
    by (simp add: HasPrefix_def)
  have 2: "get (Config (example_args\<lparr>Config := []\<rparr>)) ''volatile.base_image''
     \<noteq> get (localConfig example_container) ''volatile.base_image''"
    by (simp add: get_def example_container_def)
  have 3: "Update_validate_args example_Env
             (Update_defaults example_container (example_args\<lparr>Config := []\<rparr>)) = None"
    by code_simp
  from Update_read_only_keys[OF 1 2, of example_Env example_db] 3
  obtain e where e: "Update example_Env example_container example_db (example_args\<lparr>Config := []\<rparr>) True
      = (Some e, example_container, example_db)"
    "e = Err ''Volatile keys are read-only'' \<or> e = Err ''Image keys are read-only''" by blast
  have "fst (Update example_Env example_container example_db (example_args\<lparr>Config := []\<rparr>) True)
          \<noteq> Some (Err ''Image keys are read-only'')"
    by code_simp
  with e have "e = Err ''Volatile keys are read-only''" by auto
  with e(1) 1 2 show ?thesis by blast
qed

section \<open>Properties of the id-map allocator\<close>

lemma int64_id: "- (2 ^ 63) \<le> x \<Longrightarrow> x < 2 ^ 63 \<Longrightarrow> int64 x = x"
  by (simp add: int64_def)

lemma small_add: "small a \<Longrightarrow> small b \<Longrightarrow> int64 (a + b) = a + b"
  by (rule int64_id) (auto simp: small_def)

lemma small_add3: "small a \<Longrightarrow> small b \<Longrightarrow> small c \<Longrightarrow> int64 (a + b + c) = a + b + c"
  by (rule int64_id) (auto simp: small_def)

lemma scan_after_eq:
  assumes "\<forall>e \<in> set es. small (Hostid e) \<and> small (Maprange e)" "small sz"
    "0 < i" "i \<le> length es" "offset = Hostid (es ! (i - 1)) + Maprange (es ! (i - 1))"
  shows "scan es sz i offset = scan_after sz (es ! (i - 1)) (drop i es)"
  using assms(3-5)
proof (induction "length es - i" arbitrary: i offset)
  case 0
  then have "i = length es" by simp
  then show ?case using 0 by (subst scan.simps) simp
next
  case (Suc n)
  then have i: "i < length es" by simp
  with Suc.prems have p: "i - Suc 0 < length es" by simp
  let ?p = "es ! (i - Suc 0)"
  let ?c = "es ! i"
  from assms(1) i p have sm: "small (Hostid ?p)" "small (Maprange ?p)" "small (Hostid ?c)" "small (Maprange ?c)"
    by (auto simp: all_set_conv_all_nth)
  have d: "drop i es = ?c # drop (Suc i) es" using i by (simp add: Cons_nth_drop_Suc)
  have e1: "int64 (Hostid ?p + Maprange ?p) = Hostid ?p + Maprange ?p" using sm by (simp add: small_add)
  have e2: "int64 (Hostid ?p + Maprange ?p + sz) = Hostid ?p + Maprange ?p + sz"
    using sm assms(2) by (simp add: small_add3)
  have e3: "int64 (Hostid ?c + Maprange ?c) = Hostid ?c + Maprange ?c" using sm by (simp add: small_add)
  have IH: "scan es sz (Suc i) (Hostid ?c + Maprange ?c) = scan_after sz ?c (drop (Suc i) es)"
    using Suc.hyps(1)[of "Suc i" "Hostid ?c + Maprange ?c"] Suc.hyps(2) i by simp
  show ?case
    apply (subst scan.simps)
    using i Suc.prems(1,3) IH
    by (simp add: Let_def e1 e2 e3 d)
qed

lemma scan_eq_list:
  assumes "\<forall>e \<in> set es. small (Hostid e) \<and> small (Maprange e)" "small sz"
    "- (2 ^ 62) < start" "start < 2 ^ 62"
  shows "scan es sz 0 start = scan_list sz start es"
proof (cases es)
  case Nil
  then show ?thesis by (subst scan.simps) (simp add: scan_list_def)
next
  case (Cons e es')
  with assms(1) have sm: "small (Hostid e)" "small (Maprange e)" by simp_all
  have e0: "es ! 0 = e" using Cons by simp
  have a: "scan es sz (Suc 0) (Hostid e + Maprange e) = scan_after sz e es'"
    using scan_after_eq[OF assms(1,2), of "Suc 0" "Hostid e + Maprange e"] Cons by simp
  have b: "int64 (start + sz) = start + sz"
    using assms(2-4) by (intro int64_id) (auto simp: small_def)
  show ?thesis
    apply (subst scan.simps)
    using Cons a sm
    by (simp add: scan_list_def small_add b)
qed

lemma scan_after_shape:
  "\<exists>p. (scan_after sz e es = Inl p \<or> scan_after sz e es = Inr p) \<and>
       p \<in> (\<lambda>x. Hostid x + Maprange x) ` set (e # es)"
  by (induction es arbitrary: e) auto

lemma later_Hostid:
  assumes "sorted_wrt (\<lambda>a b. Hostid a + Maprange a \<le> Hostid b) (e # es)" "x \<in> set es"
  shows "Hostid e + Maprange e \<le> Hostid x"
  using assms by auto

lemma scan_after_lower:
  assumes "sorted_wrt (\<lambda>a b. Hostid a + Maprange a \<le> Hostid b) (e # es)"
    "\<forall>x \<in> set (e # es). 0 < Maprange x"
    "scan_after sz e es = Inl p \<or> scan_after sz e es = Inr p"
  shows "Hostid e + Maprange e \<le> p"
  using assms
proof (induction es arbitrary: e)
  case Nil
  then show ?case by simp
next
  case (Cons e' es)
  show ?case
  proof (cases "Hostid e + Maprange e + sz < Hostid e'")
    case True
    with Cons.prems(3) show ?thesis by simp
  next
    case False
    with Cons.prems have "Hostid e' + Maprange e' \<le> p" by (intro Cons.IH) auto
    with Cons.prems(1,2) show ?thesis by auto
  qed
qed

lemma scan_after_free:
  assumes "sorted_wrt (\<lambda>a b. Hostid a + Maprange a \<le> Hostid b) (e # es)"
    "\<forall>x \<in> set (e # es). 0 < Maprange x"
    "scan_after sz e es = Inl p \<or> scan_after sz e es = Inr p"
    "x \<in> set (e # es)"
  shows "\<not> overlaps p sz (Hostid x) (Maprange x)"
  using assms
proof (induction es arbitrary: e)
  case Nil
  then show ?case by (auto simp: overlaps_def)
next
  case (Cons e' es)
  show ?case
  proof (cases "Hostid e + Maprange e + sz < Hostid e'")
    case True
    with Cons.prems(3) have p: "p = Hostid e + Maprange e" by simp
    show ?thesis
    proof (cases "x = e")
      case True
      with p show ?thesis by (simp add: overlaps_def)
    next
      case False
      with Cons.prems(4) have x: "x \<in> set (e' # es)" by simp
      then have "Hostid e' \<le> Hostid x"
        using Cons.prems(1,2) by (cases "x = e'") auto
      with True p show ?thesis by (simp add: overlaps_def)
    qed
  next
    case False
    with Cons.prems(3) have r: "scan_after sz e' es = Inl p \<or> scan_after sz e' es = Inr p" by simp
    have s: "sorted_wrt (\<lambda>a b. Hostid a + Maprange a \<le> Hostid b) (e' # es)"
      "\<forall>x \<in> set (e' # es). 0 < Maprange x" using Cons.prems(1,2) by auto
    show ?thesis
    proof (cases "x = e")
      case True
      from scan_after_lower[OF s r] Cons.prems(1,2) have "Hostid e + Maprange e \<le> p" by auto
      with True show ?thesis by (simp add: overlaps_def)
    next
      case False
      with Cons.prems(4) have "x \<in> set (e' # es)" by simp
      from Cons.IH[OF s r this] show ?thesis .
    qed
  qed
qed

lemma scan_after_first:
  assumes "sorted_wrt (\<lambda>a b. Hostid a + Maprange a \<le> Hostid b) (e # es)"
    "\<forall>x \<in> set (e # es). 0 < Maprange x"
    "scan_after sz e es = Inl p \<or> scan_after sz e es = Inr p"
    "x \<in> set (e # es)" "Hostid x + Maprange x < p"
  shows "\<exists>y \<in> set es. Hostid y \<le> Hostid x + Maprange x + sz \<and>
                       Hostid x + Maprange x < Hostid y + Maprange y"
  using assms
proof (induction es arbitrary: e)
  case Nil
  then show ?case by simp
next
  case (Cons e' es)
  have s: "sorted_wrt (\<lambda>a b. Hostid a + Maprange a \<le> Hostid b) (e' # es)"
    "\<forall>x \<in> set (e' # es). 0 < Maprange x" using Cons.prems(1,2) by auto
  show ?case
  proof (cases "Hostid e + Maprange e + sz < Hostid e'")
    case True
    with Cons.prems(3) have p: "p = Hostid e + Maprange e" by simp
    have "Hostid e + Maprange e \<le> Hostid x + Maprange x"
    proof (cases "x = e")
      case False
      with Cons.prems(4) have "x \<in> set (e' # es)" by simp
      with Cons.prems(1,2) show ?thesis by force
    qed simp
    with p Cons.prems(5) show ?thesis by simp
  next
    case False
    with Cons.prems(3) have r: "scan_after sz e' es = Inl p \<or> scan_after sz e' es = Inr p" by simp
    show ?thesis
    proof (cases "x = e")
      case True
      with False Cons.prems(1,2) show ?thesis by auto
    next
      case False
      with Cons.prems(4) have "x \<in> set (e' # es)" by simp
      from Cons.IH[OF s r this Cons.prems(5)] show ?thesis by auto
    qed
  qed
qed

lemma scan_after_next:
  "scan_after sz e es = Inl p \<Longrightarrow> \<exists>y \<in> set es. p + sz < Hostid y"
  by (induction es arbitrary: e) (auto split: if_splits)

lemma scan_after_last:
  assumes "sorted_wrt (\<lambda>a b. Hostid a + Maprange a \<le> Hostid b) (e # es)"
    "\<forall>x \<in> set (e # es). 0 < Maprange x"
    "scan_after sz e es = Inr p" "x \<in> set (e # es)"
  shows "Hostid x + Maprange x \<le> p"
  using assms
proof (induction es arbitrary: e)
  case Nil
  then show ?case by simp
next
  case (Cons e' es)
  have s: "sorted_wrt (\<lambda>a b. Hostid a + Maprange a \<le> Hostid b) (e' # es)"
    "\<forall>x \<in> set (e' # es). 0 < Maprange x" using Cons.prems(1,2) by auto
  from Cons.prems(3) have r: "scan_after sz e' es = Inr p" by (auto split: if_splits)
  show ?case
  proof (cases "x = e")
    case True
    from scan_after_lower[OF s, of sz p] r have "Hostid e' + Maprange e' \<le> p" by simp
    with Cons.prems(1,2) True show ?thesis by auto
  next
    case False
    with Cons.prems(4) have "x \<in> set (e' # es)" by simp
    from Cons.IH[OF s r this] show ?thesis .
  qed
qed

lemma mapentries_of_eq:
  assumes "\<forall>c \<in> set cts. counted st cName c \<longrightarrow> (\<exists>r. container_range st c = Inr r)"
  shows "mapentries_of st cName cts acc = Inr (acc @ map mapentry (other_ranges st cName cts))"
  using assms
proof (induction cts arbitrary: acc)
  case Nil
  then show ?case by (simp add: other_ranges_def)
next
  case (Cons c cts)
  show ?case
  proof (cases "counted st cName c")
    case False
    with Cons show ?thesis by (simp add: other_ranges_def)
  next
    case True
    with Cons.prems obtain b s where r: "container_range st c = Inr (b, s)" by fastforce
    from Cons.prems have "\<forall>c \<in> set cts. counted st cName c \<longrightarrow> (\<exists>r. container_range st c = Inr r)"
      by simp
    from Cons.IH[OF this] True r show ?thesis
      by (simp add: other_ranges_def mapentry_def)
  qed
qed

lemma mapentries_of_Inr:
  "mapentries_of st cName cts acc = Inr es \<Longrightarrow>
   \<forall>c \<in> set cts. counted st cName c \<longrightarrow> (\<exists>r. container_range st c = Inr r)"
  by (induction cts arbitrary: acc) (auto split: if_splits sum.splits)

lemma inj_mapentry: "inj mapentry"
  by (auto simp: inj_def mapentry_def prod_eq_iff)

lemma chain_sorted:
  assumes "sorted (map Hostid xs)" "distinct xs" "\<forall>x \<in> set xs. 0 < Maprange x"
    "\<forall>x \<in> set xs. \<forall>y \<in> set xs. x \<noteq> y \<longrightarrow> \<not> overlaps (Hostid x) (Maprange x) (Hostid y) (Maprange y)"
  shows "sorted_wrt (\<lambda>a b. Hostid a + Maprange a \<le> Hostid b) xs"
  unfolding sorted_wrt_iff_nth_less
proof (intro allI impI)
  fix i j
  assume ij: "i < j" "j < length xs"
  then have i: "i < length xs" by simp
  from assms(1) ij i have le: "Hostid (xs ! i) \<le> Hostid (xs ! j)"
    using sorted_nth_mono[of "map Hostid xs" i j] by simp
  from assms(2) ij i have ne: "xs ! i \<noteq> xs ! j" by (simp add: nth_eq_iff_index_eq)
  from assms(3) ij have pos: "0 < Maprange (xs ! j)" by simp
  from assms(4) ne i ij(2)
  have "\<not> overlaps (Hostid (xs ! i)) (Maprange (xs ! i)) (Hostid (xs ! j)) (Maprange (xs ! j))"
    by simp
  with le pos show "Hostid (xs ! i) + Maprange (xs ! i) \<le> Hostid (xs ! j)"
    by (auto simp: overlaps_def)
qed

lemma sorted_entries:
  assumes "\<forall>r \<in> set rs. range_ok r" "disjoint_ranges rs"
  shows "sorted_wrt (\<lambda>a b. Hostid a + Maprange a \<le> Hostid b) (sort_key Hostid (map mapentry rs))"
proof (rule chain_sorted)
  show "sorted (map Hostid (sort_key Hostid (map mapentry rs)))" by simp
  show "distinct (sort_key Hostid (map mapentry rs))"
    using assms(2) by (simp add: disjoint_ranges_def distinct_map inj_mapentry inj_on_subset[OF inj_mapentry])
  show "\<forall>x \<in> set (sort_key Hostid (map mapentry rs)). 0 < Maprange x"
    using assms(1) by (auto simp: range_ok_def mapentry_def)
  show "\<forall>x \<in> set (sort_key Hostid (map mapentry rs)). \<forall>y \<in> set (sort_key Hostid (map mapentry rs)).
          x \<noteq> y \<longrightarrow> \<not> overlaps (Hostid x) (Maprange x) (Hostid y) (Maprange y)"
    using assms(2) by (auto simp: disjoint_ranges_def mapentry_def)
qed

lemma entries_small:
  assumes "\<forall>r \<in> set rs. range_ok r"
  shows "\<forall>e \<in> set (sort_key Hostid (map mapentry rs)). small (Hostid e) \<and> small (Maprange e)"
  using assms by (auto simp: range_ok_def mapentry_def)

lemma addRawMaps_error: "addRawMaps st idset raws = Inl e \<Longrightarrow> e = ErrHostIdIsSubId"
  by (induction raws arbitrary: idset) (auto split: prod.splits option.splits if_splits)

lemma withOffset_mkIdmap:
  "(\<exists>idmap. withOffset (mkIdmap st rawMaps offset sz) offset = Inr (idmap, offset)) \<or>
   withOffset (mkIdmap st rawMaps offset sz) offset = Inl ErrHostIdIsSubId"
  by (cases "mkIdmap st rawMaps offset sz")
     (auto simp: withOffset_def mkIdmap_def dest: addRawMaps_error)

lemma findIdmap_auto:
  assumes "IsTrue st isolatedStr" "parseRawIdmap st rawIdmap = Inr rawMaps"
    "idmapSize st isolatedStr configSize = Inr sz" "containerLoadAll st = Inr cts"
    "OS_IdmapSet st = Some (host # rest)" "mapentries_of st cName cts [] = Inr es"
  shows "findIdmap st cName isolatedStr [] configSize rawIdmap =
           (case scan (sort_key Hostid es) sz 0 (int64 (Hostid host + 65536)) of
              Inl offset \<Rightarrow> withOffset (mkIdmap st rawMaps offset sz) offset
            | Inr offset \<Rightarrow>
                if int64 (offset + sz) < int64 (Hostid host + Maprange host)
                then withOffset (mkIdmap st rawMaps offset sz) offset
                else Inl (Err ''Not enough uid/gid available for the container''))"
  using assms by (simp add: findIdmap_def)

lemma scan_list_shape:
  "\<exists>p. (scan_list sz start xs = Inl p \<or> scan_list sz start xs = Inr p) \<and>
       (p = start \<or> p \<in> (\<lambda>x. Hostid x + Maprange x) ` set xs)"
proof (cases xs)
  case Nil
  then show ?thesis by (simp add: scan_list_def)
next
  case (Cons e es)
  show ?thesis
  proof (cases "Hostid e < start + sz")
    case True
    with scan_after_shape[of sz e es] Cons show ?thesis by (auto simp: scan_list_def)
  next
    case False
    with Cons show ?thesis by (simp add: scan_list_def)
  qed
qed

lemma findIdmap_auto_list:
  assumes "IsTrue st isolatedStr" "parseRawIdmap st rawIdmap = Inr rawMaps"
    "idmapSize st isolatedStr configSize = Inr sz" "containerLoadAll st = Inr cts"
    "OS_IdmapSet st = Some (host # rest)"
    "small sz" "small (Hostid host)" "small (Maprange host)"
    "\<forall>c \<in> set cts. counted st cName c \<longrightarrow> (\<exists>r. container_range st c = Inr r)"
    "\<forall>r \<in> set (other_ranges st cName cts). range_ok r"
  shows "findIdmap st cName isolatedStr [] configSize rawIdmap =
           (case scan_list sz (Hostid host + 65536)
                   (sort_key Hostid (map mapentry (other_ranges st cName cts))) of
              Inl offset \<Rightarrow> withOffset (mkIdmap st rawMaps offset sz) offset
            | Inr offset \<Rightarrow>
                if offset + sz < Hostid host + Maprange host
                then withOffset (mkIdmap st rawMaps offset sz) offset
                else Inl (Err ''Not enough uid/gid available for the container''))"
proof -
  let ?xs = "sort_key Hostid (map mapentry (other_ranges st cName cts))"
  let ?start = "Hostid host + 65536"
  have m: "mapentries_of st cName cts [] = Inr (map mapentry (other_ranges st cName cts))"
    using mapentries_of_eq[OF assms(9), of "[]"] by simp
  have s: "int64 ?start = ?start" using assms(7) by (intro int64_id) (auto simp: small_def)
  have u: "int64 (Hostid host + Maprange host) = Hostid host + Maprange host"
    using assms(7,8) by (rule small_add)
  have sc: "scan ?xs sz 0 ?start = scan_list sz ?start ?xs"
    using assms(7) by (intro scan_eq_list entries_small assms(10) assms(6)) (auto simp: small_def)
  have o: "int64 (p + sz) = p + sz" if "scan_list sz ?start ?xs = Inr p" for p
  proof -
    from scan_list_shape[of sz ?start ?xs] that
    have "p = ?start \<or> p \<in> (\<lambda>x. Hostid x + Maprange x) ` set ?xs" by auto
    then have "- (2 ^ 62) < p \<and> p < 2 ^ 62"
      using assms(7) entries_small[OF assms(10)] by (auto simp: small_def)
    with assms(6) show ?thesis by (intro int64_id) (auto simp: small_def)
  qed
  show ?thesis
    unfolding findIdmap_auto[OF assms(1-5) m] s u sc
    using o by (cases "scan_list sz ?start ?xs") simp_all
qed

lemma scan_list_free:
  assumes "sorted_wrt (\<lambda>a b. Hostid a + Maprange a \<le> Hostid b) xs"
    "\<forall>x \<in> set xs. 0 < Maprange x"
    "scan_list sz start xs = Inl p \<or> scan_list sz start xs = Inr p"
    "x \<in> set xs"
  shows "\<not> overlaps p sz (Hostid x) (Maprange x)"
proof (cases xs)
  case Nil
  with assms(4) show ?thesis by simp
next
  case (Cons e es)
  show ?thesis
  proof (cases "Hostid e < start + sz")
    case True
    with assms(3) Cons have "scan_after sz e es = Inl p \<or> scan_after sz e es = Inr p"
      by (simp add: scan_list_def)
    from scan_after_free[OF assms(1,2)[unfolded Cons] this] assms(4) Cons show ?thesis by simp
  next
    case False
    with assms(3) Cons have p: "p = start" by (simp add: scan_list_def)
    have "Hostid e \<le> Hostid x" using assms(1,2,4) Cons by (cases "x = e") auto
    with False p show ?thesis by (simp add: overlaps_def)
  qed
qed

lemma findIdmap_Inr_parts:
  assumes "findIdmap st cName isolatedStr [] configSize rawIdmap = Inr (idmap, offset)"
    "IsTrue st isolatedStr" "containerLoadAll st = Inr cts"
  shows "(\<exists>rawMaps. parseRawIdmap st rawIdmap = Inr rawMaps) \<and>
         (\<exists>sz. idmapSize st isolatedStr configSize = Inr sz) \<and>
         (\<forall>c \<in> set cts. counted st cName c \<longrightarrow> (\<exists>r. container_range st c = Inr r))"
proof -
  from assms have "(\<exists>rawMaps. parseRawIdmap st rawIdmap = Inr rawMaps) \<and>
         (\<exists>sz. idmapSize st isolatedStr configSize = Inr sz) \<and>
         (\<exists>es. mapentries_of st cName cts [] = Inr es)"
    by (auto simp: findIdmap_def split: sum.splits option.splits list.splits)
  then show ?thesis by (auto dest: mapentries_of_Inr)
qed

lemma findIdmap_offset:
  assumes "(case r of Inl offset \<Rightarrow> withOffset (mkIdmap st rawMaps offset sz) offset
            | Inr offset \<Rightarrow> if offset + sz < upper
                then withOffset (mkIdmap st rawMaps offset sz) offset
                else Inl e) = Inr (idmap, p)"
  shows "r = Inl p \<or> (r = Inr p \<and> p + sz < upper)"
  using assms by (cases r) (auto simp: withOffset_def split: sum.splits if_splits)

text \<open>Runs of \<open>findIdmap\<close> for a container \<open>c1\<close> on example hosts.\<close>

lemma example_findIdmap:
  "findIdmap (example_State [isolated_container ''c2'' ''165536'' []]) ''c1'' ''true'' [] [] [] =
     Inr ([\<lparr>Isuid = True, Isgid = False, Hostid = 231072, Nsid = 0, Maprange = 65536\<rparr>,
           \<lparr>Isuid = False, Isgid = True, Hostid = 231072, Nsid = 0, Maprange = 65536\<rparr>], 231072)"
  by (simp add: findIdmap_def example_State_def parseRawIdmap_def idmapSize_def ParseInt_def
                is_digit_def mkIdmap_def withOffset_def counted_def IsPrivileged_def
                container_range_def isolated_container_def get_def example_container_def
                host_map_def int64_def scan.simps)

lemma example_other_ranges:
  "other_ranges (example_State [isolated_container ''c2'' ''165536'' []]) ''c1''
      [isolated_container ''c2'' ''165536'' []] = [(165536, 65536)]"
  by (simp add: other_ranges_def counted_def IsPrivileged_def container_range_def
                isolated_container_def get_def example_State_def idmapSize_def ParseInt_def
                is_digit_def example_container_def)

lemma example_configBase:
  "findIdmap (example_State [isolated_container ''c2'' ''200000'' []]) ''c1'' ''true''
         ''200000'' [] [] =
     Inr ([\<lparr>Isuid = True, Isgid = False, Hostid = 200000, Nsid = 0, Maprange = 65536\<rparr>,
           \<lparr>Isuid = False, Isgid = True, Hostid = 200000, Nsid = 0, Maprange = 65536\<rparr>], 200000)"
  "other_ranges (example_State [isolated_container ''c2'' ''200000'' []]) ''c1''
      [isolated_container ''c2'' ''200000'' []] = [(200000, 65536)]"
  by (simp_all add: findIdmap_def example_State_def parseRawIdmap_def idmapSize_def ParseInt_def
                is_digit_def mkIdmap_def withOffset_def other_ranges_def counted_def
                IsPrivileged_def container_range_def isolated_container_def get_def
                example_container_def)

lemma example_big_size:
  "findIdmap (example_State [isolated_container ''c2'' ''165536'' []]) ''c1'' ''true'' []
         ''9223372036854775807'' [] =
     Inr ([\<lparr>Isuid = True, Isgid = False, Hostid = 165536, Nsid = 0,
            Maprange = 9223372036854775807\<rparr>,
           \<lparr>Isuid = False, Isgid = True, Hostid = 165536, Nsid = 0,
            Maprange = 9223372036854775807\<rparr>], 165536)"
  by (simp add: findIdmap_def example_State_def parseRawIdmap_def idmapSize_def ParseInt_def
                is_digit_def mkIdmap_def withOffset_def counted_def IsPrivileged_def
                container_range_def isolated_container_def get_def example_container_def
                host_map_def int64_def scan.simps)

lemma example_big_base:
  "findIdmap ((example_State [isolated_container ''c2'' ''9223372036854775708'' ''50''])
        \<lparr>OS_IdmapSet := Some
          [\<lparr>Isuid = True, Isgid = False, Hostid = 9223372036854710172, Nsid = 0, Maprange = 65536\<rparr>,
           \<lparr>Isuid = False, Isgid = True, Hostid = 9223372036854710172, Nsid = 0, Maprange = 65536\<rparr>]\<rparr>)
      ''c1'' ''true'' [] [] [] =
     Inr ([\<lparr>Isuid = True, Isgid = False, Hostid = 9223372036854775708, Nsid = 0, Maprange = 65536\<rparr>,
           \<lparr>Isuid = False, Isgid = True, Hostid = 9223372036854775708, Nsid = 0, Maprange = 65536\<rparr>],
          9223372036854775708)"
  "other_ranges ((example_State [isolated_container ''c2'' ''9223372036854775708'' ''50''])
        \<lparr>OS_IdmapSet := Some
          [\<lparr>Isuid = True, Isgid = False, Hostid = 9223372036854710172, Nsid = 0, Maprange = 65536\<rparr>,
           \<lparr>Isuid = False, Isgid = True, Hostid = 9223372036854710172, Nsid = 0, Maprange = 65536\<rparr>]\<rparr>)
      ''c1'' [isolated_container ''c2'' ''9223372036854775708'' ''50''] =
     [(9223372036854775708, 50)]"
  by (simp_all add: findIdmap_def example_State_def parseRawIdmap_def idmapSize_def ParseInt_def
                is_digit_def mkIdmap_def withOffset_def counted_def IsPrivileged_def
                container_range_def isolated_container_def get_def example_container_def
                int64_def scan.simps other_ranges_def)

lemma example_same_name:
  "findIdmap (example_State [(isolated_container ''c1'' ''165536'' [])\<lparr>project := ''other''\<rparr>])
      ''c1'' ''true'' [] [] [] =
     Inr ([\<lparr>Isuid = True, Isgid = False, Hostid = 165536, Nsid = 0, Maprange = 65536\<rparr>,
           \<lparr>Isuid = False, Isgid = True, Hostid = 165536, Nsid = 0, Maprange = 65536\<rparr>], 165536)"
  "mapentries_of (example_State [(isolated_container ''c1'' ''165536'' [])\<lparr>project := ''other''\<rparr>])
      ''c1'' [(isolated_container ''c1'' ''165536'' [])\<lparr>project := ''other''\<rparr>] [] = Inr []"
  "name ((isolated_container ''c1'' ''165536'' [])\<lparr>project := ''other''\<rparr>) = ''c1''"
  "project ((isolated_container ''c1'' ''165536'' [])\<lparr>project := ''other''\<rparr>) = ''other''"
  "\<not> IsPrivileged (example_State [(isolated_container ''c1'' ''165536'' [])\<lparr>project := ''other''\<rparr>])
       ((isolated_container ''c1'' ''165536'' [])\<lparr>project := ''other''\<rparr>)"
  "IsTrue (example_State [(isolated_container ''c1'' ''165536'' [])\<lparr>project := ''other''\<rparr>])
     (get (expandedConfig ((isolated_container ''c1'' ''165536'' [])\<lparr>project := ''other''\<rparr>))
        ''security.idmap.isolated'')"
  "container_range (example_State [(isolated_container ''c1'' ''165536'' [])\<lparr>project := ''other''\<rparr>])
      ((isolated_container ''c1'' ''165536'' [])\<lparr>project := ''other''\<rparr>) = Inr (165536, 65536)"
  by (simp_all add: findIdmap_def example_State_def parseRawIdmap_def idmapSize_def ParseInt_def
                is_digit_def mkIdmap_def withOffset_def counted_def IsPrivileged_def
                container_range_def isolated_container_def get_def example_container_def
                host_map_def int64_def scan.simps)

lemma example_nested:
  "findIdmap (example_State [isolated_container ''c2'' ''200000'' ''1000000'',
                             isolated_container ''c3'' ''300000'' ''10'']) ''c1'' ''true'' [] [] [] =
     Inr ([\<lparr>Isuid = True, Isgid = False, Hostid = 300010, Nsid = 0, Maprange = 65536\<rparr>,
           \<lparr>Isuid = False, Isgid = True, Hostid = 300010, Nsid = 0, Maprange = 65536\<rparr>], 300010)"
  "other_ranges (example_State [isolated_container ''c2'' ''200000'' ''1000000'',
                                isolated_container ''c3'' ''300000'' ''10'']) ''c1''
      [isolated_container ''c2'' ''200000'' ''1000000'', isolated_container ''c3'' ''300000'' ''10''] =
     [(200000, 1000000), (300000, 10)]"
  by (simp_all add: findIdmap_def example_State_def parseRawIdmap_def idmapSize_def ParseInt_def
                is_digit_def mkIdmap_def withOffset_def counted_def IsPrivileged_def
                container_range_def isolated_container_def get_def example_container_def
                host_map_def int64_def scan.simps other_ranges_def)

lemma example_empty_range:
  "findIdmap (example_State [isolated_container ''c2'' ''170000'' [],
                             isolated_container ''c3'' ''180000'' ''0'']) ''c1'' ''true'' [] [] [] =
     Inr ([\<lparr>Isuid = True, Isgid = False, Hostid = 180000, Nsid = 0, Maprange = 65536\<rparr>,
           \<lparr>Isuid = False, Isgid = True, Hostid = 180000, Nsid = 0, Maprange = 65536\<rparr>], 180000)"
  "other_ranges (example_State [isolated_container ''c2'' ''170000'' [],
                                isolated_container ''c3'' ''180000'' ''0'']) ''c1''
      [isolated_container ''c2'' ''170000'' [], isolated_container ''c3'' ''180000'' ''0''] =
     [(170000, 65536), (180000, 0)]"
  by (simp_all add: findIdmap_def example_State_def parseRawIdmap_def idmapSize_def ParseInt_def
                is_digit_def mkIdmap_def withOffset_def counted_def IsPrivileged_def
                container_range_def isolated_container_def get_def example_container_def
                host_map_def int64_def scan.simps other_ranges_def)

text \<open>
  Claim C2, as stated, fails in each of these runs of \<open>findIdmap\<close> for a container
  \<open>c1\<close>, the block returned sharing ids with the range persisted for another isolated
  unprivileged container:

  \<^item> a base is configured for \<open>c1\<close>: it is taken as it is, here that of \<open>c2\<close>;
  \<^item> the size asked for is 9223372036854775807: the sum of the first offset and the
    size wraps around, and the block is put on the range of \<open>c2\<close>;
  \<^item> the host's map and the range of \<open>c2\<close> are at the top of the 64 bits: the same;
  \<^item> the other container is also named \<open>c1\<close>, in another project: the loop skips it
    by its name;
  \<^item> the ranges of \<open>c2\<close> and \<open>c3\<close> overlap, the second inside the first: the scan
    goes on from the end of the second;
  \<^item> the range of \<open>c3\<close> is empty, at an id inside that of \<open>c2\<close>: the scan goes on
    from its end.
\<close>

theorem findIdmap_disjoint_counterexample:
  "findIdmap (example_State [isolated_container ''c2'' ''200000'' []]) ''c1'' ''true''
         ''200000'' [] [] =
     Inr ([\<lparr>Isuid = True, Isgid = False, Hostid = 200000, Nsid = 0, Maprange = 65536\<rparr>,
           \<lparr>Isuid = False, Isgid = True, Hostid = 200000, Nsid = 0, Maprange = 65536\<rparr>], 200000) \<and>
   other_ranges (example_State [isolated_container ''c2'' ''200000'' []]) ''c1''
      [isolated_container ''c2'' ''200000'' []] = [(200000, 65536)] \<and>
   overlaps 200000 65536 200000 65536 \<and>
   findIdmap (example_State [isolated_container ''c2'' ''165536'' []]) ''c1'' ''true'' []
         ''9223372036854775807'' [] =
     Inr ([\<lparr>Isuid = True, Isgid = False, Hostid = 165536, Nsid = 0,
            Maprange = 9223372036854775807\<rparr>,
           \<lparr>Isuid = False, Isgid = True, Hostid = 165536, Nsid = 0,
            Maprange = 9223372036854775807\<rparr>], 165536) \<and>
   other_ranges (example_State [isolated_container ''c2'' ''165536'' []]) ''c1''
      [isolated_container ''c2'' ''165536'' []] = [(165536, 65536)] \<and>
   overlaps 165536 9223372036854775807 165536 65536 \<and>
   findIdmap ((example_State [isolated_container ''c2'' ''9223372036854775708'' ''50''])
        \<lparr>OS_IdmapSet := Some
          [\<lparr>Isuid = True, Isgid = False, Hostid = 9223372036854710172, Nsid = 0, Maprange = 65536\<rparr>,
           \<lparr>Isuid = False, Isgid = True, Hostid = 9223372036854710172, Nsid = 0, Maprange = 65536\<rparr>]\<rparr>)
      ''c1'' ''true'' [] [] [] =
     Inr ([\<lparr>Isuid = True, Isgid = False, Hostid = 9223372036854775708, Nsid = 0, Maprange = 65536\<rparr>,
           \<lparr>Isuid = False, Isgid = True, Hostid = 9223372036854775708, Nsid = 0, Maprange = 65536\<rparr>],
          9223372036854775708) \<and>
   other_ranges ((example_State [isolated_container ''c2'' ''9223372036854775708'' ''50''])
        \<lparr>OS_IdmapSet := Some
          [\<lparr>Isuid = True, Isgid = False, Hostid = 9223372036854710172, Nsid = 0, Maprange = 65536\<rparr>,
           \<lparr>Isuid = False, Isgid = True, Hostid = 9223372036854710172, Nsid = 0, Maprange = 65536\<rparr>]\<rparr>)
      ''c1'' [isolated_container ''c2'' ''9223372036854775708'' ''50''] =
     [(9223372036854775708, 50)] \<and>
   overlaps 9223372036854775708 65536 9223372036854775708 50 \<and>
   findIdmap (example_State [(isolated_container ''c1'' ''165536'' [])\<lparr>project := ''other''\<rparr>])
      ''c1'' ''true'' [] [] [] =
     Inr ([\<lparr>Isuid = True, Isgid = False, Hostid = 165536, Nsid = 0, Maprange = 65536\<rparr>,
           \<lparr>Isuid = False, Isgid = True, Hostid = 165536, Nsid = 0, Maprange = 65536\<rparr>], 165536) \<and>
   name ((isolated_container ''c1'' ''165536'' [])\<lparr>project := ''other''\<rparr>) = ''c1'' \<and>
   project ((isolated_container ''c1'' ''165536'' [])\<lparr>project := ''other''\<rparr>) = ''other'' \<and>
   \<not> IsPrivileged (example_State [(isolated_container ''c1'' ''165536'' [])\<lparr>project := ''other''\<rparr>])
       ((isolated_container ''c1'' ''165536'' [])\<lparr>project := ''other''\<rparr>) \<and>
   IsTrue (example_State [(isolated_container ''c1'' ''165536'' [])\<lparr>project := ''other''\<rparr>])
     (get (expandedConfig ((isolated_container ''c1'' ''165536'' [])\<lparr>project := ''other''\<rparr>))
        ''security.idmap.isolated'') \<and>
   container_range (example_State [(isolated_container ''c1'' ''165536'' [])\<lparr>project := ''other''\<rparr>])
      ((isolated_container ''c1'' ''165536'' [])\<lparr>project := ''other''\<rparr>) = Inr (165536, 65536) \<and>
   overlaps 165536 65536 165536 65536 \<and>
   findIdmap (example_State [isolated_container ''c2'' ''200000'' ''1000000'',
                             isolated_container ''c3'' ''300000'' ''10'']) ''c1'' ''true'' [] [] [] =
     Inr ([\<lparr>Isuid = True, Isgid = False, Hostid = 300010, Nsid = 0, Maprange = 65536\<rparr>,
           \<lparr>Isuid = False, Isgid = True, Hostid = 300010, Nsid = 0, Maprange = 65536\<rparr>], 300010) \<and>
   other_ranges (example_State [isolated_container ''c2'' ''200000'' ''1000000'',
                                isolated_container ''c3'' ''300000'' ''10'']) ''c1''
      [isolated_container ''c2'' ''200000'' ''1000000'', isolated_container ''c3'' ''300000'' ''10''] =
     [(200000, 1000000), (300000, 10)] \<and>
   overlaps 200000 1000000 300000 10 \<and>
   overlaps 300010 65536 200000 1000000 \<and>
   findIdmap (example_State [isolated_container ''c2'' ''170000'' [],
                             isolated_container ''c3'' ''180000'' ''0'']) ''c1'' ''true'' [] [] [] =
     Inr ([\<lparr>Isuid = True, Isgid = False, Hostid = 180000, Nsid = 0, Maprange = 65536\<rparr>,
           \<lparr>Isuid = False, Isgid = True, Hostid = 180000, Nsid = 0, Maprange = 65536\<rparr>], 180000) \<and>
   other_ranges (example_State [isolated_container ''c2'' ''170000'' [],
                                isolated_container ''c3'' ''180000'' ''0'']) ''c1''
      [isolated_container ''c2'' ''170000'' [], isolated_container ''c3'' ''180000'' ''0''] =
     [(170000, 65536), (180000, 0)] \<and>
   \<not> overlaps 170000 65536 180000 0 \<and>
   overlaps 180000 65536 170000 65536"
proof -
  have o: "overlaps 200000 65536 200000 65536" "overlaps 165536 9223372036854775807 165536 65536"
    "overlaps 9223372036854775708 65536 9223372036854775708 50" "overlaps 165536 65536 165536 65536"
    "overlaps 200000 1000000 300000 10" "overlaps 300010 65536 200000 1000000"
    "overlaps 180000 65536 170000 65536" "\<not> overlaps 170000 65536 180000 0"
    by (simp_all add: overlaps_def)
  from example_configBase example_big_size example_other_ranges example_big_base
    example_same_name(1,3-7) example_nested example_empty_range o
  show ?thesis by blast
qed

text \<open>
  Claim C2, amended. Let A be an isolated container for which no base is configured, so
  that \<open>findIdmap\<close> allocates, and let the others be the isolated unprivileged
  containers whose name differs from that of A (what holds for a container of the same
  name in another project is left open). Let the ranges persisted for the others be not
  empty (their size is above 0) and not overlap one another, and let the size asked for,
  the base and the size of the host's map, and the bases and sizes of the others all lie
  strictly between \<open>-2^61\<close> and \<open>2^61\<close>. Then, when \<open>findIdmap\<close> succeeds for A, the
  interval \<open>[offset, offset + size)\<close> it returns overlaps the persisted interval of none
  of the others.
\<close>

theorem findIdmap_disjoint:
  assumes "findIdmap st cName isolatedStr [] configSize rawIdmap = Inr (idmap, offset)"
    and "IsTrue st isolatedStr"
    and "idmapSize st isolatedStr configSize = Inr sz"
    and "containerLoadAll st = Inr cts"
    and "OS_IdmapSet st = Some (host # rest)"
    and "small sz" "small (Hostid host)" "small (Maprange host)"
    and "\<forall>r \<in> set (other_ranges st cName cts). range_ok r"
    and "disjoint_ranges (other_ranges st cName cts)"
  shows "\<forall>c \<in> set cts.
           name c \<noteq> cName \<and> \<not> IsPrivileged st c \<and>
           IsTrue st (get (expandedConfig c) ''security.idmap.isolated'') \<longrightarrow>
           (\<exists>b s. container_range st c = Inr (b, s) \<and> \<not> overlaps offset sz b s)"
proof (intro ballI impI)
  fix c assume "c \<in> set cts" "name c \<noteq> cName \<and> \<not> IsPrivileged st c \<and>
           IsTrue st (get (expandedConfig c) ''security.idmap.isolated'')"
  then have c: "c \<in> set cts" "counted st cName c" by (simp_all add: counted_def)
  let ?rs = "other_ranges st cName cts"
  let ?xs = "sort_key Hostid (map mapentry ?rs)"
  from findIdmap_Inr_parts[OF assms(1,2,4)] obtain rawMaps where
    raw: "parseRawIdmap st rawIdmap = Inr rawMaps" and
    rng: "\<forall>c \<in> set cts. counted st cName c \<longrightarrow> (\<exists>r. container_range st c = Inr r)" by blast
  from rng c obtain b s where bs: "container_range st c = Inr (b, s)" by fastforce
  with c have mem: "mapentry (b, s) \<in> set ?xs" by (force simp: other_ranges_def)
  have "(case scan_list sz (Hostid host + 65536) ?xs of
              Inl offset \<Rightarrow> withOffset (mkIdmap st rawMaps offset sz) offset
            | Inr offset \<Rightarrow>
                if offset + sz < Hostid host + Maprange host
                then withOffset (mkIdmap st rawMaps offset sz) offset
                else Inl (Err ''Not enough uid/gid available for the container'')) = Inr (idmap, offset)"
    using findIdmap_auto_list[OF assms(2) raw assms(3-8) rng assms(9)] assms(1) by simp
  from findIdmap_offset[OF this]
  have "scan_list sz (Hostid host + 65536) ?xs = Inl offset \<or>
        scan_list sz (Hostid host + 65536) ?xs = Inr offset"
    by blast
  from scan_list_free[OF sorted_entries[OF assms(9,10)] _ this mem] assms(9)
  have "\<not> overlaps offset sz b s" by (auto simp: range_ok_def mapentry_def)
  with bs show "\<exists>b s. container_range st c = Inr (b, s) \<and> \<not> overlaps offset sz b s" by blast
qed

theorem findIdmap_disjoint_witness:
  "findIdmap (example_State [isolated_container ''c2'' ''165536'' []]) ''c1'' ''true'' [] [] [] =
     Inr ([\<lparr>Isuid = True, Isgid = False, Hostid = 231072, Nsid = 0, Maprange = 65536\<rparr>,
           \<lparr>Isuid = False, Isgid = True, Hostid = 231072, Nsid = 0, Maprange = 65536\<rparr>], 231072) \<and>
   disjoint_ranges (other_ranges (example_State [isolated_container ''c2'' ''165536'' []]) ''c1''
      [isolated_container ''c2'' ''165536'' []]) \<and>
   name (isolated_container ''c2'' ''165536'' []) \<noteq> ''c1'' \<and>
   \<not> IsPrivileged (example_State [isolated_container ''c2'' ''165536'' []])
      (isolated_container ''c2'' ''165536'' []) \<and>
   IsTrue (example_State [isolated_container ''c2'' ''165536'' []])
      (get (expandedConfig (isolated_container ''c2'' ''165536'' [])) ''security.idmap.isolated'') \<and>
   container_range (example_State [isolated_container ''c2'' ''165536'' []])
      (isolated_container ''c2'' ''165536'' []) = Inr (165536, 65536) \<and>
   \<not> overlaps 231072 65536 165536 65536"
proof -
  let ?st = "example_State [isolated_container ''c2'' ''165536'' []]"
  let ?c = "isolated_container ''c2'' ''165536'' []"
  have 2: "IsTrue ?st ''true''" by (simp add: example_State_def)
  have 3: "idmapSize ?st ''true'' [] = Inr 65536" by (simp add: idmapSize_def example_State_def)
  have 4: "containerLoadAll ?st = Inr [?c]"
    by (simp add: example_State_def)
  have 5: "OS_IdmapSet ?st = Some (\<lparr>Isuid = True, Isgid = False, Hostid = 100000, Nsid = 0, Maprange = 1000000000\<rparr> #
             [\<lparr>Isuid = False, Isgid = True, Hostid = 100000, Nsid = 0, Maprange = 1000000000\<rparr>])"
    by (simp add: example_State_def host_map_def)
  have 6: "small 65536"
    "small (Hostid \<lparr>Isuid = True, Isgid = False, Hostid = 100000, Nsid = 0, Maprange = 1000000000\<rparr>)"
    "small (Maprange \<lparr>Isuid = True, Isgid = False, Hostid = 100000, Nsid = 0, Maprange = 1000000000\<rparr>)"
    by (simp_all add: small_def)
  have 7: "\<forall>r \<in> set (other_ranges ?st ''c1'' [?c]). range_ok r"
    unfolding example_other_ranges by (simp add: range_ok_def small_def)
  have 8: "disjoint_ranges (other_ranges ?st ''c1'' [?c])"
    unfolding example_other_ranges by (simp add: disjoint_ranges_def)
  have c: "name ?c \<noteq> ''c1''" "\<not> IsPrivileged ?st ?c"
    "IsTrue ?st (get (expandedConfig ?c) ''security.idmap.isolated'')"
    by (simp_all add: IsPrivileged_def isolated_container_def get_def example_State_def)
  have r: "container_range ?st ?c = Inr (165536, 65536)"
    by (simp add: container_range_def isolated_container_def get_def example_State_def
                  idmapSize_def ParseInt_def is_digit_def)
  have m: "?c \<in> set [?c]" by simp
  from findIdmap_disjoint[OF example_findIdmap 2 3 4 5 6 7 8, rule_format, OF m] c r
  have "\<not> overlaps 231072 65536 165536 65536" by simp
  with example_findIdmap 8 c r show ?thesis by blast
qed

lemma scan_list_candidate:
  assumes "scan_list sz start xs = Inl p \<or> scan_list sz start xs = Inr p"
  shows "p = start \<or> p \<in> (\<lambda>x. Hostid x + Maprange x) ` set xs"
  using scan_list_shape[of sz start xs] assms by auto

lemma scan_list_lower:
  assumes "\<forall>x \<in> set xs. 0 < Maprange x \<and> start \<le> Hostid x"
    "scan_list sz start xs = Inl p \<or> scan_list sz start xs = Inr p"
  shows "start \<le> p"
  using scan_list_candidate[OF assms(2)] assms(1) by force

lemma scan_list_next:
  assumes "scan_list sz start xs = Inl p"
  shows "\<exists>y \<in> set xs. p + sz \<le> Hostid y"
proof (cases xs)
  case Nil
  with assms show ?thesis by (simp add: scan_list_def)
next
  case (Cons e es)
  show ?thesis
  proof (cases "Hostid e < start + sz")
    case True
    with assms Cons have "scan_after sz e es = Inl p" by (simp add: scan_list_def)
    from scan_after_next[OF this] Cons show ?thesis by force
  next
    case False
    with assms Cons show ?thesis by (simp add: scan_list_def)
  qed
qed

lemma scan_list_first:
  assumes "sorted_wrt (\<lambda>a b. Hostid a + Maprange a \<le> Hostid b) xs"
    "\<forall>x \<in> set xs. 0 < Maprange x \<and> start \<le> Hostid x"
    "scan_list sz start xs = Inl p \<or> scan_list sz start xs = Inr p"
    "q = start \<or> q \<in> (\<lambda>x. Hostid x + Maprange x) ` set xs" "q < p"
  shows "\<exists>y \<in> set xs. Hostid y \<le> q + sz \<and> q < Hostid y + Maprange y"
proof (cases xs)
  case Nil
  with assms(3,4,5) show ?thesis by (simp add: scan_list_def)
next
  case (Cons e es)
  have pos: "\<forall>x \<in> set (e # es). 0 < Maprange x" using assms(2) Cons by simp
  show ?thesis
  proof (cases "Hostid e < start + sz")
    case True
    with assms(3) Cons have r: "scan_after sz e es = Inl p \<or> scan_after sz e es = Inr p"
      by (simp add: scan_list_def)
    from assms(4) show ?thesis
    proof
      assume "q = start"
      with True assms(2) Cons show ?thesis by force
    next
      assume "q \<in> (\<lambda>x. Hostid x + Maprange x) ` set xs"
      then obtain x where x: "x \<in> set (e # es)" "q = Hostid x + Maprange x" using Cons by auto
      from scan_after_first[OF assms(1)[unfolded Cons] pos r x(1)] assms(5) x(2) Cons
      show ?thesis by auto
    qed
  next
    case False
    with assms(3) Cons have "p = start" by (simp add: scan_list_def)
    with assms(2,4,5) show ?thesis by force
  qed
qed

lemma scan_list_last:
  assumes "sorted_wrt (\<lambda>a b. Hostid a + Maprange a \<le> Hostid b) xs"
    "\<forall>x \<in> set xs. 0 < Maprange x \<and> start \<le> Hostid x"
    "scan_list sz start xs = Inr p"
    "q = start \<or> q \<in> (\<lambda>x. Hostid x + Maprange x) ` set xs"
  shows "q \<le> p"
proof (cases xs)
  case Nil
  with assms(3,4) show ?thesis by (simp add: scan_list_def)
next
  case (Cons e es)
  have pos: "\<forall>x \<in> set (e # es). 0 < Maprange x" using assms(2) Cons by simp
  from assms(3) Cons have r: "scan_after sz e es = Inr p"
    by (auto simp: scan_list_def split: if_splits)
  from assms(4) show ?thesis
  proof
    assume "q = start"
    with scan_list_lower[OF assms(2), of sz p] assms(3) show ?thesis by simp
  next
    assume "q \<in> (\<lambda>x. Hostid x + Maprange x) ` set xs"
    then obtain x where x: "x \<in> set (e # es)" "q = Hostid x + Maprange x" using Cons by auto
    from scan_after_last[OF assms(1)[unfolded Cons] pos r x(1)] x(2) show ?thesis by simp
  qed
qed

lemma entries_set: "set (sort_key Hostid (map mapentry rs)) = mapentry ` set rs"
  by simp

lemma entries_ends:
  "(\<lambda>x. Hostid x + Maprange x) ` set (sort_key Hostid (map mapentry rs)) = (\<lambda>r. fst r + snd r) ` set rs"
proof -
  have "(\<lambda>x. Hostid x + Maprange x) ` set (sort_key Hostid (map mapentry rs)) =
        ((\<lambda>x. Hostid x + Maprange x) \<circ> mapentry) ` set rs"
    by (simp add: image_comp)
  also have "(\<lambda>x. Hostid x + Maprange x) \<circ> mapentry = (\<lambda>r. fst r + snd r)"
    by (simp add: fun_eq_iff mapentry_def)
  finally show ?thesis .
qed

lemma candidates_set:
  "q \<in> set (candidates start rs) \<longleftrightarrow>
   q = start \<or> q \<in> (\<lambda>x. Hostid x + Maprange x) ` set (sort_key Hostid (map mapentry rs))"
  unfolding entries_ends by (auto simp: candidates_def)

lemma entries_within:
  assumes "\<forall>r \<in> set rs. range_ok r" "\<forall>r \<in> set rs. start \<le> fst r \<and> fst r + snd r \<le> upper"
  shows "\<forall>x \<in> set (sort_key Hostid (map mapentry rs)). 0 < Maprange x \<and> start \<le> Hostid x"
    and "\<forall>x \<in> set (sort_key Hostid (map mapentry rs)). Hostid x + Maprange x \<le> upper"
  using assms by (auto simp: range_ok_def mapentry_def)

lemma not_roomy:
  assumes "y \<in> set (sort_key Hostid (map mapentry rs))" "Hostid y \<le> q + sz" "q < Hostid y + Maprange y"
  shows "\<not> roomy sz upper rs q"
proof -
  from assms(1) obtain r where r: "r \<in> set rs" "y = mapentry r" by auto
  with assms(2,3) have "fst r \<le> q + sz \<and> q < fst r + snd r" by (simp add: mapentry_def)
  with r(1) show ?thesis unfolding roomy_def by blast
qed

lemma first_fit_found:
  assumes ok: "\<forall>r \<in> set rs. range_ok r" and dj: "disjoint_ranges rs"
    and within: "\<forall>r \<in> set rs. start \<le> fst r \<and> fst r + snd r \<le> upper"
    and res: "scan_list sz start (sort_key Hostid (map mapentry rs)) = Inl p \<or>
              (scan_list sz start (sort_key Hostid (map mapentry rs)) = Inr p \<and> p + sz < upper)"
  shows "p \<in> set (candidates start rs) \<and> start \<le> p \<and> p + sz \<le> upper \<and>
         (\<forall>r \<in> set rs. \<not> overlaps p sz (fst r) (snd r)) \<and>
         (\<forall>q \<in> set (candidates start rs). q < p \<longrightarrow> \<not> roomy sz upper rs q)"
proof -
  let ?xs = "sort_key Hostid (map mapentry rs)"
  note srt = sorted_entries[OF ok dj]
  note w = entries_within[OF ok within]
  from res have r: "scan_list sz start ?xs = Inl p \<or> scan_list sz start ?xs = Inr p" by blast
  have 1: "p \<in> set (candidates start rs)"
    unfolding candidates_set using scan_list_candidate[OF r] .
  have 2: "start \<le> p" using scan_list_lower[OF w(1) r] .
  have 3: "p + sz \<le> upper"
  proof (cases "scan_list sz start ?xs = Inl p")
    case True
    from scan_list_next[OF True] obtain y where "y \<in> set ?xs" "p + sz \<le> Hostid y" by blast
    with w show ?thesis by force
  next
    case False
    with res show ?thesis by simp
  qed
  have 4: "\<forall>r \<in> set rs. \<not> overlaps p sz (fst r) (snd r)"
  proof
    fix r' assume "r' \<in> set rs"
    then have "mapentry r' \<in> set ?xs" by simp
    from scan_list_free[OF srt _ r this] w(1) show "\<not> overlaps p sz (fst r') (snd r')"
      by (simp add: mapentry_def)
  qed
  have 5: "\<forall>q \<in> set (candidates start rs). q < p \<longrightarrow> \<not> roomy sz upper rs q"
  proof (intro ballI impI)
    fix q assume q: "q \<in> set (candidates start rs)" "q < p"
    from scan_list_first[OF srt w(1) r q(1)[unfolded candidates_set] q(2)]
    obtain y where "y \<in> set ?xs" "Hostid y \<le> q + sz" "q < Hostid y + Maprange y" by blast
    then show "\<not> roomy sz upper rs q" by (rule not_roomy)
  qed
  from 1 2 3 4 5 show ?thesis by blast
qed

lemma first_fit_none:
  assumes ok: "\<forall>r \<in> set rs. range_ok r" and dj: "disjoint_ranges rs"
    and within: "\<forall>r \<in> set rs. start \<le> fst r \<and> fst r + snd r \<le> upper"
    and res: "scan_list sz start (sort_key Hostid (map mapentry rs)) = Inr p" "\<not> p + sz < upper"
  shows "\<forall>q \<in> set (candidates start rs). \<not> roomy sz upper rs q"
proof
  fix q assume q: "q \<in> set (candidates start rs)"
  let ?xs = "sort_key Hostid (map mapentry rs)"
  note srt = sorted_entries[OF ok dj]
  note w = entries_within[OF ok within]
  from scan_list_last[OF srt w(1) res(1) q[unfolded candidates_set]] have "q \<le> p" .
  then consider "q < p" | "q = p" by fastforce
  then show "\<not> roomy sz upper rs q"
  proof cases
    case 1
    from scan_list_first[OF srt w(1) _ q[unfolded candidates_set] 1] res(1)
    obtain y where "y \<in> set ?xs" "Hostid y \<le> q + sz" "q < Hostid y + Maprange y" by blast
    then show ?thesis by (rule not_roomy)
  next
    case 2
    with res(2) show ?thesis by (simp add: roomy_def)
  qed
qed

lemma example_no_container:
  "findIdmap (example_State []) ''c1'' ''true'' [] [] [] =
     Inr ([\<lparr>Isuid = True, Isgid = False, Hostid = 165536, Nsid = 0, Maprange = 65536\<rparr>,
           \<lparr>Isuid = False, Isgid = True, Hostid = 165536, Nsid = 0, Maprange = 65536\<rparr>], 165536)"
  "OS_IdmapSet (example_State []) = Some host_map" "Hostid (host_map ! 0) = 100000"
  "Maprange (host_map ! 0) = 1000000000"
  "other_ranges (example_State []) ''c1'' [] = []"
  by (simp_all add: findIdmap_def example_State_def parseRawIdmap_def idmapSize_def
                mkIdmap_def withOffset_def host_map_def int64_def scan.simps other_ranges_def)

lemma example_exact_gap:
  "findIdmap (example_State [isolated_container ''c2'' ''165536'' [],
                             isolated_container ''c3'' ''296608'' []]) ''c1'' ''true'' [] [] [] =
     Inr ([\<lparr>Isuid = True, Isgid = False, Hostid = 362144, Nsid = 0, Maprange = 65536\<rparr>,
           \<lparr>Isuid = False, Isgid = True, Hostid = 362144, Nsid = 0, Maprange = 65536\<rparr>], 362144)"
  "other_ranges (example_State [isolated_container ''c2'' ''165536'' [],
                                isolated_container ''c3'' ''296608'' []]) ''c1''
      [isolated_container ''c2'' ''165536'' [], isolated_container ''c3'' ''296608'' []] =
     [(165536, 65536), (296608, 65536)]"
  by (simp_all add: findIdmap_def example_State_def parseRawIdmap_def idmapSize_def ParseInt_def
                is_digit_def mkIdmap_def withOffset_def counted_def IsPrivileged_def
                container_range_def isolated_container_def get_def example_container_def
                host_map_def int64_def scan.simps other_ranges_def)

lemma example_exact_fit:
  "findIdmap (example_State []) ''c1'' ''true'' [] ''999934464'' [] =
     Inl (Err ''Not enough uid/gid available for the container'')"
  by (simp add: findIdmap_def example_State_def parseRawIdmap_def idmapSize_def ParseInt_def
                is_digit_def mkIdmap_def withOffset_def host_map_def int64_def scan.simps)

lemma example_below:
  "findIdmap (example_State [isolated_container ''c2'' ''0'' ''10'']) ''c1'' ''true'' [] [] [] =
     Inr ([\<lparr>Isuid = True, Isgid = False, Hostid = 10, Nsid = 0, Maprange = 65536\<rparr>,
           \<lparr>Isuid = False, Isgid = True, Hostid = 10, Nsid = 0, Maprange = 65536\<rparr>], 10)"
  "other_ranges (example_State [isolated_container ''c2'' ''0'' ''10'']) ''c1''
      [isolated_container ''c2'' ''0'' ''10''] = [(0, 10)]"
  by (simp_all add: findIdmap_def example_State_def parseRawIdmap_def idmapSize_def ParseInt_def
                is_digit_def mkIdmap_def withOffset_def counted_def IsPrivileged_def
                container_range_def isolated_container_def get_def example_container_def
                host_map_def int64_def scan.simps other_ranges_def)

lemma example_beyond:
  "findIdmap (example_State [isolated_container ''c2'' ''2000000000'' []]) ''c1'' ''true'' []
        ''1000050000'' [] =
     Inr ([\<lparr>Isuid = True, Isgid = False, Hostid = 165536, Nsid = 0, Maprange = 1000050000\<rparr>,
           \<lparr>Isuid = False, Isgid = True, Hostid = 165536, Nsid = 0, Maprange = 1000050000\<rparr>],
          165536)"
  "other_ranges (example_State [isolated_container ''c2'' ''2000000000'' []]) ''c1''
      [isolated_container ''c2'' ''2000000000'' []] = [(2000000000, 65536)]"
  by (simp_all add: findIdmap_def example_State_def parseRawIdmap_def idmapSize_def ParseInt_def
                is_digit_def mkIdmap_def withOffset_def counted_def IsPrivileged_def
                container_range_def isolated_container_def get_def example_container_def
                host_map_def int64_def scan.simps other_ranges_def)

lemma example_big_range:
  "findIdmap (example_State [isolated_container ''c2'' ''165536'' ''9223372036854775807''])
      ''c1'' ''true'' [] [] [] =
     Inr ([\<lparr>Isuid = True, Isgid = False, Hostid = - 9223372036854610273, Nsid = 0,
            Maprange = 65536\<rparr>,
           \<lparr>Isuid = False, Isgid = True, Hostid = - 9223372036854610273, Nsid = 0,
            Maprange = 65536\<rparr>], - 9223372036854610273)"
  by (simp add: findIdmap_def example_State_def parseRawIdmap_def idmapSize_def ParseInt_def
                is_digit_def mkIdmap_def withOffset_def counted_def IsPrivileged_def
                container_range_def isolated_container_def get_def example_container_def
                host_map_def int64_def scan.simps)

lemma example_errors:
  "findIdmap (example_State [isolated_container ''c2'' ''x'' []]) ''c1'' ''true'' [] [] [] =
     Inl (NumError ''x'' ''invalid syntax'')"
  "findIdmap (example_State []) ''c1'' ''true'' [] ''x'' [] = Inl (NumError ''x'' ''invalid syntax'')"
  "findIdmap ((example_State [])\<lparr>containerLoadAll := Inl (Err ''no such table'')\<rparr>)
      ''c1'' ''true'' [] [] [] = Inl (Err ''no such table'')"
  "findIdmap ((example_State [])\<lparr>OS_IdmapSet := None\<rparr>) ''c1'' ''true'' [] [] [] =
     Inl (Panic ''nil pointer dereference'')"
  by (simp_all add: findIdmap_def example_State_def parseRawIdmap_def idmapSize_def ParseInt_def
                is_digit_def mkIdmap_def withOffset_def counted_def IsPrivileged_def
                container_range_def isolated_container_def get_def example_container_def
                host_map_def int64_def scan.simps)

lemma example_raw_error:
  "findIdmap (example_State []) ''c1'' ''true'' [] [] ''x'' = Inl (Err ''invalid raw.idmap line x'')"
  by code_simp

text \<open>
  Claim C4, as stated, fails in each of these runs of \<open>findIdmap\<close> for a container
  \<open>c1\<close> on a host whose map is \<open>[100000, 1000100000)\<close>:

  \<^item> with no other container the block is put at 165536: the scan starts 65536 ids
    after the base of the host's map, not at it;
  \<^item> between the ranges of \<open>c2\<close> and \<open>c3\<close> exactly 65536 ids are free, from 231072:
    the gap is passed over, the test between two ranges being strict;
  \<^item> a size of 999934464, all that is free from 165536 to the upper bound, is refused,
    the last test being strict;
  \<^item> the range of \<open>c2\<close> lies below the host's map: the block is put at its end, 10,
    outside the host's map;
  \<^item> the range of \<open>c2\<close> lies above the host's map and 1000050000 ids are asked for: the
    block is put at 165536 and ends above the upper bound, with no error;
  \<^item> the size asked for, or the size of \<open>c2\<close>, is 9223372036854775807: a sum wraps
    around, and the block is put on the range of \<open>c2\<close>, or below zero;
  \<^item> the other container is also named \<open>c1\<close>, in another project: it is not collected,
    and the block is put on its range;
  \<^item> the ranges of \<open>c2\<close> and \<open>c3\<close> overlap, or that of \<open>c3\<close> is empty: the block is
    put on the range of \<open>c2\<close>;
  \<^item> the base of \<open>c2\<close>, the size asked for or \<open>raw.idmap\<close> does not parse, the
    containers cannot be loaded, or the host has no map: another error, or a panic, is
    what comes back, whatever is free.
\<close>

theorem findIdmap_first_fit_counterexample:
  "findIdmap (example_State []) ''c1'' ''true'' [] [] [] =
     Inr ([\<lparr>Isuid = True, Isgid = False, Hostid = 165536, Nsid = 0, Maprange = 65536\<rparr>,
           \<lparr>Isuid = False, Isgid = True, Hostid = 165536, Nsid = 0, Maprange = 65536\<rparr>], 165536) \<and>
   OS_IdmapSet (example_State []) = Some host_map \<and> Hostid (host_map ! 0) = 100000 \<and>
   Maprange (host_map ! 0) = 1000000000 \<and>
   other_ranges (example_State []) ''c1'' [] = [] \<and>
   findIdmap (example_State [isolated_container ''c2'' ''165536'' [],
                             isolated_container ''c3'' ''296608'' []]) ''c1'' ''true'' [] [] [] =
     Inr ([\<lparr>Isuid = True, Isgid = False, Hostid = 362144, Nsid = 0, Maprange = 65536\<rparr>,
           \<lparr>Isuid = False, Isgid = True, Hostid = 362144, Nsid = 0, Maprange = 65536\<rparr>], 362144) \<and>
   other_ranges (example_State [isolated_container ''c2'' ''165536'' [],
                                isolated_container ''c3'' ''296608'' []]) ''c1''
      [isolated_container ''c2'' ''165536'' [], isolated_container ''c3'' ''296608'' []] =
     [(165536, 65536), (296608, 65536)] \<and>
   findIdmap (example_State []) ''c1'' ''true'' [] ''999934464'' [] =
     Inl (Err ''Not enough uid/gid available for the container'') \<and>
   findIdmap (example_State [isolated_container ''c2'' ''0'' ''10'']) ''c1'' ''true'' [] [] [] =
     Inr ([\<lparr>Isuid = True, Isgid = False, Hostid = 10, Nsid = 0, Maprange = 65536\<rparr>,
           \<lparr>Isuid = False, Isgid = True, Hostid = 10, Nsid = 0, Maprange = 65536\<rparr>], 10) \<and>
   other_ranges (example_State [isolated_container ''c2'' ''0'' ''10'']) ''c1''
      [isolated_container ''c2'' ''0'' ''10''] = [(0, 10)] \<and>
   findIdmap (example_State [isolated_container ''c2'' ''2000000000'' []]) ''c1'' ''true'' []
        ''1000050000'' [] =
     Inr ([\<lparr>Isuid = True, Isgid = False, Hostid = 165536, Nsid = 0, Maprange = 1000050000\<rparr>,
           \<lparr>Isuid = False, Isgid = True, Hostid = 165536, Nsid = 0, Maprange = 1000050000\<rparr>],
          165536) \<and>
   other_ranges (example_State [isolated_container ''c2'' ''2000000000'' []]) ''c1''
      [isolated_container ''c2'' ''2000000000'' []] = [(2000000000, 65536)] \<and>
   findIdmap (example_State [isolated_container ''c2'' ''165536'' []]) ''c1'' ''true'' []
         ''9223372036854775807'' [] =
     Inr ([\<lparr>Isuid = True, Isgid = False, Hostid = 165536, Nsid = 0,
            Maprange = 9223372036854775807\<rparr>,
           \<lparr>Isuid = False, Isgid = True, Hostid = 165536, Nsid = 0,
            Maprange = 9223372036854775807\<rparr>], 165536) \<and>
   findIdmap (example_State [isolated_container ''c2'' ''165536'' ''9223372036854775807''])
      ''c1'' ''true'' [] [] [] =
     Inr ([\<lparr>Isuid = True, Isgid = False, Hostid = - 9223372036854610273, Nsid = 0,
            Maprange = 65536\<rparr>,
           \<lparr>Isuid = False, Isgid = True, Hostid = - 9223372036854610273, Nsid = 0,
            Maprange = 65536\<rparr>], - 9223372036854610273) \<and>
   mapentries_of (example_State [(isolated_container ''c1'' ''165536'' [])\<lparr>project := ''other''\<rparr>])
      ''c1'' [(isolated_container ''c1'' ''165536'' [])\<lparr>project := ''other''\<rparr>] [] = Inr [] \<and>
   container_range (example_State [(isolated_container ''c1'' ''165536'' [])\<lparr>project := ''other''\<rparr>])
      ((isolated_container ''c1'' ''165536'' [])\<lparr>project := ''other''\<rparr>) = Inr (165536, 65536) \<and>
   findIdmap (example_State [(isolated_container ''c1'' ''165536'' [])\<lparr>project := ''other''\<rparr>])
      ''c1'' ''true'' [] [] [] =
     Inr ([\<lparr>Isuid = True, Isgid = False, Hostid = 165536, Nsid = 0, Maprange = 65536\<rparr>,
           \<lparr>Isuid = False, Isgid = True, Hostid = 165536, Nsid = 0, Maprange = 65536\<rparr>], 165536) \<and>
   findIdmap (example_State [isolated_container ''c2'' ''200000'' ''1000000'',
                             isolated_container ''c3'' ''300000'' ''10'']) ''c1'' ''true'' [] [] [] =
     Inr ([\<lparr>Isuid = True, Isgid = False, Hostid = 300010, Nsid = 0, Maprange = 65536\<rparr>,
           \<lparr>Isuid = False, Isgid = True, Hostid = 300010, Nsid = 0, Maprange = 65536\<rparr>], 300010) \<and>
   other_ranges (example_State [isolated_container ''c2'' ''200000'' ''1000000'',
                                isolated_container ''c3'' ''300000'' ''10'']) ''c1''
      [isolated_container ''c2'' ''200000'' ''1000000'', isolated_container ''c3'' ''300000'' ''10''] =
     [(200000, 1000000), (300000, 10)] \<and>
   overlaps 300010 65536 200000 1000000 \<and>
   findIdmap (example_State [isolated_container ''c2'' ''170000'' [],
                             isolated_container ''c3'' ''180000'' ''0'']) ''c1'' ''true'' [] [] [] =
     Inr ([\<lparr>Isuid = True, Isgid = False, Hostid = 180000, Nsid = 0, Maprange = 65536\<rparr>,
           \<lparr>Isuid = False, Isgid = True, Hostid = 180000, Nsid = 0, Maprange = 65536\<rparr>], 180000) \<and>
   other_ranges (example_State [isolated_container ''c2'' ''170000'' [],
                                isolated_container ''c3'' ''180000'' ''0'']) ''c1''
      [isolated_container ''c2'' ''170000'' [], isolated_container ''c3'' ''180000'' ''0''] =
     [(170000, 65536), (180000, 0)] \<and>
   overlaps 180000 65536 170000 65536 \<and>
   findIdmap (example_State [isolated_container ''c2'' ''x'' []]) ''c1'' ''true'' [] [] [] =
     Inl (NumError ''x'' ''invalid syntax'') \<and>
   findIdmap (example_State []) ''c1'' ''true'' [] ''x'' [] = Inl (NumError ''x'' ''invalid syntax'') \<and>
   findIdmap (example_State []) ''c1'' ''true'' [] [] ''x'' = Inl (Err ''invalid raw.idmap line x'') \<and>
   findIdmap ((example_State [])\<lparr>containerLoadAll := Inl (Err ''no such table'')\<rparr>)
      ''c1'' ''true'' [] [] [] = Inl (Err ''no such table'') \<and>
   findIdmap ((example_State [])\<lparr>OS_IdmapSet := None\<rparr>) ''c1'' ''true'' [] [] [] =
     Inl (Panic ''nil pointer dereference'')"
proof -
  have o: "overlaps 300010 65536 200000 1000000" "overlaps 180000 65536 170000 65536"
    by (simp_all add: overlaps_def)
  from example_no_container example_exact_gap example_exact_fit example_below example_beyond
    example_big_size example_big_range example_same_name(1,2,7) example_nested
    example_empty_range example_errors example_raw_error o
  show ?thesis by blast
qed

text \<open>
  Claim C4, amended. For an isolated container with no configured base, on a host that
  has a map, when \<open>raw.idmap\<close> and the size parse and the containers can be loaded,
  \<open>findIdmap\<close> collects the (base, size) of every isolated unprivileged container whose
  name differs from that of the container it computes for (a container of the same name
  in another project is left out as well), from its expanded config; it sorts them by
  base and tries the offsets in ascending order: the base of the host's map plus 65536,
  then the end of each range. Let each of these bases and sizes parse; let the size
  asked for, the base and the size of the host's map, and these bases and sizes all lie
  strictly between \<open>-2^61\<close> and \<open>2^61\<close>; and let the ranges be not empty (their size is
  above 0), not overlap one another, and lie between that first offset and the upper
  bound of the host's map (its base plus its size). Then:

  \<^item> the offset returned is one of these candidates, at or after the first; its block
    overlaps no range and ends at or below the upper bound; and no candidate before it
    has more than the size free after it below the upper bound (a gap of exactly the
    size may be passed over);
  \<^item> when some candidate has more than the size free after it below the upper bound,
    \<open>findIdmap\<close> returns what \<open>mkIdmap\<close> makes of a block of the size at some offset:
    with no raw map, the two entries of that block;
  \<^item> the error \<open>Not enough uid/gid available for the container\<close> is returned only when
    no candidate has more than the size free after it below the upper bound; the only
    other error is \<open>ErrHostIdIsSubId\<close>, from a raw map.
\<close>

theorem findIdmap_first_fit:
  assumes "IsTrue st isolatedStr"
    and "parseRawIdmap st rawIdmap = Inr rawMaps"
    and "idmapSize st isolatedStr configSize = Inr sz"
    and "containerLoadAll st = Inr cts"
    and "OS_IdmapSet st = Some (host # rest)"
    and "small sz" "small (Hostid host)" "small (Maprange host)"
    and "\<forall>c \<in> set cts. counted st cName c \<longrightarrow> (\<exists>r. container_range st c = Inr r)"
    and "\<forall>r \<in> set (other_ranges st cName cts). range_ok r"
    and "disjoint_ranges (other_ranges st cName cts)"
    and "\<forall>r \<in> set (other_ranges st cName cts).
           Hostid host + 65536 \<le> fst r \<and> fst r + snd r \<le> Hostid host + Maprange host"
  shows "mapentries_of st cName cts [] = Inr (map mapentry (other_ranges st cName cts)) \<and>
         (\<forall>idmap offset.
            findIdmap st cName isolatedStr [] configSize rawIdmap = Inr (idmap, offset) \<longrightarrow>
            offset \<in> set (candidates (Hostid host + 65536) (other_ranges st cName cts)) \<and>
            Hostid host + 65536 \<le> offset \<and> offset + sz \<le> Hostid host + Maprange host \<and>
            (\<forall>r \<in> set (other_ranges st cName cts). \<not> overlaps offset sz (fst r) (snd r)) \<and>
            (\<forall>p \<in> set (candidates (Hostid host + 65536) (other_ranges st cName cts)).
               p < offset \<longrightarrow>
               \<not> roomy sz (Hostid host + Maprange host) (other_ranges st cName cts) p)) \<and>
         (findIdmap st cName isolatedStr [] configSize rawIdmap =
            Inl (Err ''Not enough uid/gid available for the container'') \<longrightarrow>
          (\<forall>p \<in> set (candidates (Hostid host + 65536) (other_ranges st cName cts)).
             \<not> roomy sz (Hostid host + Maprange host) (other_ranges st cName cts) p)) \<and>
         (\<forall>e. findIdmap st cName isolatedStr [] configSize rawIdmap = Inl e \<longrightarrow>
            e = ErrHostIdIsSubId \<or> e = Err ''Not enough uid/gid available for the container'') \<and>
         ((\<exists>p \<in> set (candidates (Hostid host + 65536) (other_ranges st cName cts)).
             roomy sz (Hostid host + Maprange host) (other_ranges st cName cts) p) \<longrightarrow>
          (\<exists>offset. findIdmap st cName isolatedStr [] configSize rawIdmap =
                      withOffset (mkIdmap st rawMaps offset sz) offset)) \<and>
         (rawMaps = [] \<and>
          (\<exists>p \<in> set (candidates (Hostid host + 65536) (other_ranges st cName cts)).
             roomy sz (Hostid host + Maprange host) (other_ranges st cName cts) p) \<longrightarrow>
          (\<exists>offset. findIdmap st cName isolatedStr [] configSize rawIdmap =
             Inr ([\<lparr>Isuid = True, Isgid = False, Hostid = offset, Nsid = 0, Maprange = sz\<rparr>,
                   \<lparr>Isuid = False, Isgid = True, Hostid = offset, Nsid = 0, Maprange = sz\<rparr>],
                  offset)))"
proof -
  let ?rs = "other_ranges st cName cts"
  let ?start = "Hostid host + 65536"
  let ?upper = "Hostid host + Maprange host"
  let ?r = "scan_list sz ?start (sort_key Hostid (map mapentry ?rs))"
  let ?f = "findIdmap st cName isolatedStr [] configSize rawIdmap"
  have f: "?f = (case ?r of
              Inl offset \<Rightarrow> withOffset (mkIdmap st rawMaps offset sz) offset
            | Inr offset \<Rightarrow>
                if offset + sz < ?upper
                then withOffset (mkIdmap st rawMaps offset sz) offset
                else Inl (Err ''Not enough uid/gid available for the container''))"
    by (rule findIdmap_auto_list[OF assms(1-10)])
  have 1: "mapentries_of st cName cts [] = Inr (map mapentry ?rs)"
    using mapentries_of_eq[OF assms(9), of "[]"] by simp
  have 2: "offset \<in> set (candidates ?start ?rs) \<and> ?start \<le> offset \<and> offset + sz \<le> ?upper \<and>
            (\<forall>r \<in> set ?rs. \<not> overlaps offset sz (fst r) (snd r)) \<and>
            (\<forall>p \<in> set (candidates ?start ?rs). p < offset \<longrightarrow> \<not> roomy sz ?upper ?rs p)"
    if "?f = Inr (idmap, offset)" for idmap offset
  proof -
    from that f have "(case ?r of
              Inl offset \<Rightarrow> withOffset (mkIdmap st rawMaps offset sz) offset
            | Inr offset \<Rightarrow>
                if offset + sz < ?upper
                then withOffset (mkIdmap st rawMaps offset sz) offset
                else Inl (Err ''Not enough uid/gid available for the container'')) = Inr (idmap, offset)"
      by simp
    from findIdmap_offset[OF this] first_fit_found[OF assms(10,11,12)] show ?thesis by blast
  qed
  have 3: "\<forall>p \<in> set (candidates ?start ?rs). \<not> roomy sz ?upper ?rs p"
    if n: "?f = Inl (Err ''Not enough uid/gid available for the container'')"
  proof (cases ?r)
    case (Inl p)
    with f n withOffset_mkIdmap[of st rawMaps p sz] show ?thesis by auto
  next
    case (Inr p)
    show ?thesis
    proof (cases "p + sz < ?upper")
      case True
      with Inr f n withOffset_mkIdmap[of st rawMaps p sz] show ?thesis by auto
    next
      case False
      from first_fit_none[OF assms(10,11,12) Inr False] show ?thesis .
    qed
  qed
  have 4: "e = ErrHostIdIsSubId \<or> e = Err ''Not enough uid/gid available for the container''"
    if "?f = Inl e" for e
  proof (cases ?r)
    case (Inl p)
    with f that withOffset_mkIdmap[of st rawMaps p sz] show ?thesis by auto
  next
    case (Inr p)
    with f that withOffset_mkIdmap[of st rawMaps p sz] show ?thesis
      by (cases "p + sz < ?upper") auto
  qed
  have 5: "\<exists>offset. ?f = withOffset (mkIdmap st rawMaps offset sz) offset"
    if ex: "\<exists>p \<in> set (candidates ?start ?rs). roomy sz ?upper ?rs p"
  proof (cases ?r)
    case (Inl p)
    with f have "?f = withOffset (mkIdmap st rawMaps p sz) p" by simp
    then show ?thesis by blast
  next
    case (Inr p)
    show ?thesis
    proof (cases "p + sz < ?upper")
      case True
      with Inr f have "?f = withOffset (mkIdmap st rawMaps p sz) p" by simp
      then show ?thesis by blast
    next
      case False
      from first_fit_none[OF assms(10,11,12) Inr False] ex show ?thesis by blast
    qed
  qed
  have 6: "\<exists>offset. ?f =
             Inr ([\<lparr>Isuid = True, Isgid = False, Hostid = offset, Nsid = 0, Maprange = sz\<rparr>,
                   \<lparr>Isuid = False, Isgid = True, Hostid = offset, Nsid = 0, Maprange = sz\<rparr>],
                  offset)"
    if "rawMaps = [] \<and> (\<exists>p \<in> set (candidates ?start ?rs). roomy sz ?upper ?rs p)"
  proof -
    from that 5 obtain offset where "?f = withOffset (mkIdmap st [] offset sz) offset" by auto
    then show ?thesis by (auto simp: withOffset_def mkIdmap_def)
  qed
  from 1 2 3 4 5 6 show ?thesis by blast
qed

theorem findIdmap_first_fit_witness:
  "IsTrue (example_State [isolated_container ''c2'' ''165536'' []]) ''true'' \<and>
   parseRawIdmap (example_State [isolated_container ''c2'' ''165536'' []]) [] = Inr [] \<and>
   disjoint_ranges (other_ranges (example_State [isolated_container ''c2'' ''165536'' []]) ''c1''
      [isolated_container ''c2'' ''165536'' []]) \<and>
   findIdmap (example_State [isolated_container ''c2'' ''165536'' []]) ''c1'' ''true'' [] [] [] =
     Inr ([\<lparr>Isuid = True, Isgid = False, Hostid = 231072, Nsid = 0, Maprange = 65536\<rparr>,
           \<lparr>Isuid = False, Isgid = True, Hostid = 231072, Nsid = 0, Maprange = 65536\<rparr>], 231072) \<and>
   231072 \<in> set (candidates 165536 [(165536, 65536)]) \<and>
   \<not> roomy 65536 1000100000 [(165536, 65536)] 165536 \<and>
   roomy 65536 1000100000 [(165536, 65536)] 231072"
proof -
  let ?st = "example_State [isolated_container ''c2'' ''165536'' []]"
  let ?cts = "[isolated_container ''c2'' ''165536'' []]"
  let ?host = "\<lparr>Isuid = True, Isgid = False, Hostid = 100000, Nsid = 0, Maprange = 1000000000\<rparr>"
  have 1: "IsTrue ?st ''true''" by (simp add: example_State_def)
  have 2: "parseRawIdmap ?st [] = Inr []" by (simp add: parseRawIdmap_def)
  have 3: "idmapSize ?st ''true'' [] = Inr 65536" by (simp add: idmapSize_def example_State_def)
  have 4: "containerLoadAll ?st = Inr ?cts" by (simp add: example_State_def)
  have 5: "OS_IdmapSet ?st = Some (?host #
             [\<lparr>Isuid = False, Isgid = True, Hostid = 100000, Nsid = 0, Maprange = 1000000000\<rparr>])"
    by (simp add: example_State_def host_map_def)
  have 6: "small 65536" "small (Hostid ?host)" "small (Maprange ?host)"
    by (simp_all add: small_def)
  have 9: "\<forall>c \<in> set ?cts. counted ?st ''c1'' c \<longrightarrow> (\<exists>r. container_range ?st c = Inr r)"
    by (simp add: container_range_def isolated_container_def get_def example_State_def
                  idmapSize_def ParseInt_def is_digit_def)
  have 10: "\<forall>r \<in> set (other_ranges ?st ''c1'' ?cts). range_ok r"
    unfolding example_other_ranges by (simp add: range_ok_def small_def)
  have 11: "disjoint_ranges (other_ranges ?st ''c1'' ?cts)"
    unfolding example_other_ranges by (simp add: disjoint_ranges_def)
  have 12: "\<forall>r \<in> set (other_ranges ?st ''c1'' ?cts).
           Hostid ?host + 65536 \<le> fst r \<and> fst r + snd r \<le> Hostid ?host + Maprange ?host"
    unfolding example_other_ranges by simp
  from findIdmap_first_fit[OF 1 2 3 4 5 6 9 10 11 12, THEN conjunct2, THEN conjunct1, rule_format,
        OF example_findIdmap]
  have f: "231072 \<in> set (candidates 165536 [(165536, 65536)]) \<and>
        (\<forall>p \<in> set (candidates 165536 [(165536, 65536)]). p < 231072 \<longrightarrow>
           \<not> roomy 65536 1000100000 [(165536, 65536)] p)"
    unfolding example_other_ranges by simp
  have "165536 \<in> set (candidates 165536 [(165536, 65536)])" by (simp add: candidates_def)
  with f have "\<not> roomy 65536 1000100000 [(165536, 65536)] 165536" by simp
  moreover have "roomy 65536 1000100000 [(165536, 65536)] 231072" by (simp add: roomy_def)
  ultimately show ?thesis using f 1 2 11 example_findIdmap by blast
qed

end
